theory Spec2Isabelle
  imports Complex_Main "HOL-Library.Product_Lexorder" "HOL-Library.Multiset" "HOL-Library.Log_Nat"
begin

section \<open>Domain model (models.py)\<close>

text \<open>
  Timestamps (\<^verbatim>\<open>datetime\<close>) are integers counting microseconds, the resolution of
  Python's \<^verbatim>\<open>datetime\<close>; \<^verbatim>\<open>timedelta(minutes=n)\<close> is \<open>n * 60000000\<close>. The range
  check of \<^verbatim>\<open>datetime\<close> arithmetic (years 1 to 9999) is not modelled. A Python float
  is the rational number it stands for, and every float operation rounds its exact
  result to the nearest double (\<open>round_to_double\<close> below). Dictionaries are
  association lists in insertion order, looked up with \<open>map_of\<close>.
\<close>

datatype TrainType = EXPRESS | LOCAL | FREIGHT | MAINTENANCE | SPECIAL

datatype TrainPriority = CRITICAL | HIGH | MEDIUM | LOW | LOWEST

datatype SectionType = SINGLE_LINE | DOUBLE_LINE | JUNCTION | PLATFORM

fun priority_value :: "TrainPriority \<Rightarrow> int" where
  "priority_value CRITICAL = 1"
| "priority_value HIGH = 2"
| "priority_value MEDIUM = 3"
| "priority_value LOW = 4"
| "priority_value LOWEST = 5"

fun priority_name :: "TrainPriority \<Rightarrow> string" where
  "priority_name CRITICAL = ''CRITICAL''"
| "priority_name HIGH = ''HIGH''"
| "priority_name MEDIUM = ''MEDIUM''"
| "priority_name LOW = ''LOW''"
| "priority_name LOWEST = ''LOWEST''"

fun train_type_value :: "TrainType \<Rightarrow> string" where
  "train_type_value EXPRESS = ''EXPRESS''"
| "train_type_value LOCAL = ''LOCAL''"
| "train_type_value FREIGHT = ''FREIGHT''"
| "train_type_value MAINTENANCE = ''MAINTENANCE''"
| "train_type_value SPECIAL = ''SPECIAL''"

record TrackSection =
  section_id :: string
  name :: string
  section_type :: SectionType
  length_km :: rat
  max_speed_kmh :: int
  capacity :: int
  signal_blocks :: int

text \<open>
  Field \<^verbatim>\<open>max_speed_kmh\<close> of \<^verbatim>\<open>Train\<close> is \<open>train_max_speed_kmh\<close> here, since
  \<^verbatim>\<open>TrackSection\<close> has a field of that name too; likewise \<open>conflict_section_id\<close> and
  \<open>schedule_section_id\<close> below.
\<close>

record Train =
  train_id :: string
  train_number :: string
  train_type :: TrainType
  priority :: TrainPriority
  route :: "string list"
  scheduled_arrival :: int
  scheduled_departure :: int
  current_section :: "string option"
  current_delay_minutes :: int
  train_max_speed_kmh :: int
  estimated_section_times :: "(string \<times> int) list"

subsection \<open>Floats\<close>

text \<open>
  Rounding of a rational to the nearest IEEE 754 double, ties to the even mantissa:
  53 bits of mantissa, exponent of the last bit at least -1074 (subnormal numbers).
  Overflow beyond the largest double is left out; no quantity of the engine comes
  near it.
\<close>

definition round_half_even :: "rat \<Rightarrow> int" where
  "round_half_even x =
     (let f = \<lfloor>x\<rfloor>; d = x - of_int f
      in if d < 1 / 2 then f else if d > 1 / 2 then f + 1 else if even f then f else f + 1)"

definition pow2 :: "int \<Rightarrow> rat" where
  "pow2 e = (if e \<ge> 0 then 2 ^ nat e else 1 / 2 ^ nat (- e))"

definition round_to_double :: "rat \<Rightarrow> rat" where
  "round_to_double x =
     (if x = 0 then 0
      else
        (let a = \<bar>x\<bar>;
             k = bitlen (fst (quotient_of a)) - bitlen (snd (quotient_of a));
             l = (if pow2 k \<le> a then k else k - 1);
             e = max (l - 52) (- 1074);
             mant = round_half_even (a / pow2 e)
         in sgn x * of_int mant * pow2 e))"

text \<open>
  \<^verbatim>\<open>td.total_seconds() / 60\<close> for a time difference of \<open>d\<close> microseconds:
  \<^verbatim>\<open>total_seconds\<close> divides the microseconds by \<open>10\<^sup>6\<close>, and the quotient is divided
  by 60, each division rounded.
\<close>

definition float_minutes :: "int \<Rightarrow> rat" where
  "float_minutes d = round_to_double (round_to_double (of_int d / 1000000) / 60)"

text \<open>
  A \<^verbatim>\<open>Train\<close> value is the object after \<^verbatim>\<open>__post_init__\<close>, which fills an empty
  \<^verbatim>\<open>estimated_section_times\<close> with 10 minutes for each section of the route; every
  later lookup is \<^verbatim>\<open>.get(section_id, 10)\<close>, so both forms give the same times.
\<close>

definition timedelta_minutes :: "int \<Rightarrow> int" where
  "timedelta_minutes n = n * 60000000"

definition get_actual_arrival :: "Train \<Rightarrow> int" where
  "get_actual_arrival t = scheduled_arrival t + timedelta_minutes (current_delay_minutes t)"

definition get_actual_departure :: "Train \<Rightarrow> int" where
  "get_actual_departure t = scheduled_departure t + timedelta_minutes (current_delay_minutes t)"

text \<open>
  The \<^verbatim>\<open>conflict_id\<close> of a \<^verbatim>\<open>Conflict\<close> is a random \<^verbatim>\<open>uuid4\<close> and its
  \<^verbatim>\<open>resolution\<close> is never written by the engine; neither is modelled.
\<close>

record Conflict =
  train1 :: Train
  train2 :: Train
  conflict_section_id :: string
  conflict_start_time :: int
  conflict_end_time :: int
  severity :: int

subsection \<open>Dictionaries\<close>

definition dict_get :: "('k \<times> 'v) list \<Rightarrow> 'k \<Rightarrow> 'v \<Rightarrow> 'v" where
  "dict_get d k dflt = (case map_of d k of None \<Rightarrow> dflt | Some v \<Rightarrow> v)"

fun dict_set :: "('k \<times> 'v) list \<Rightarrow> 'k \<Rightarrow> 'v \<Rightarrow> ('k \<times> 'v) list" where
  "dict_set [] k v = [(k, v)]"
| "dict_set ((k', v') # d) k v =
     (if k' = k then (k', v) # d else (k', v') # dict_set d k v)"

text \<open>\<^verbatim>\<open>if k not in d: d[k] = []\<close> followed by \<^verbatim>\<open>d[k].append(v)\<close>.\<close>

fun dict_append :: "('k \<times> 'v list) list \<Rightarrow> 'k \<Rightarrow> 'v \<Rightarrow> ('k \<times> 'v list) list" where
  "dict_append [] k v = [(k, [v])]"
| "dict_append ((k', vs) # d) k v =
     (if k' = k then (k', vs @ [v]) # d else (k', vs) # dict_append d k v)"

datatype error = KeyError string | ZeroDivisionError | AttributeError

section \<open>Conflict detector (conflict\_detector.py)\<close>

text \<open>
  The first argument \<open>m\<close> of the functions below is the configuration
  \<^verbatim>\<open>self.safety_margin_minutes\<close>.
\<close>

type_synonym occupancy = "Train \<times> int \<times> int"

fun route_schedules ::
  "Train \<Rightarrow> int \<Rightarrow> string list \<Rightarrow> (string \<times> occupancy list) list
     \<Rightarrow> (string \<times> occupancy list) list" where
  "route_schedules train current_time [] section_schedules = section_schedules"
| "route_schedules train current_time (sid # rest) section_schedules =
     (let section_time_minutes = dict_get (estimated_section_times train) sid 10;
          start_time = current_time;
          end_time = current_time + timedelta_minutes section_time_minutes
      in route_schedules train end_time rest
           (dict_append section_schedules sid (train, start_time, end_time)))"

definition generate_section_schedules :: "Train list \<Rightarrow> (string \<times> occupancy list) list" where
  "generate_section_schedules trains =
     map (\<lambda>(sid, train_times). (sid, sort_key (\<lambda>x. fst (snd x)) train_times))
       (fold (\<lambda>train. route_schedules train (get_actual_arrival train) (route train)) trains [])"

text \<open>
  The exact quotient of a time difference of \<open>d\<close> microseconds in minutes. The
  severity below compares \<^verbatim>\<open>td.total_seconds() / 60\<close> with 30 and with 60 only, and
  for a whole number of microseconds the double lies above 30 (or 60) exactly when
  the exact quotient does; so the exact quotient stands for it there.
\<close>

definition total_minutes :: "int \<Rightarrow> rat" where
  "total_minutes d = (of_int d / 1000000) / 60"

definition calculate_conflict_severity ::
  "Train \<Rightarrow> Train \<Rightarrow> int \<Rightarrow> int \<Rightarrow> TrackSection \<Rightarrow> int" where
  "calculate_conflict_severity t1 t2 conflict_start conflict_end section =
     (let base_severity = 2;
          min_priority = min (priority_value (priority t1)) (priority_value (priority t2));
          base_severity = (if min_priority = 1 then base_severity + 2
                           else if min_priority = 2 then base_severity + 1
                           else base_severity);
          conflict_duration = total_minutes (conflict_end - conflict_start);
          base_severity = (if conflict_duration > 30 then base_severity + 1 else base_severity);
          base_severity = (if conflict_duration > 60 then base_severity + 1 else base_severity);
          base_severity = (if section_type section \<in> {JUNCTION, SINGLE_LINE}
                           then base_severity + 1 else base_severity)
      in min base_severity 5)"

definition create_conflict ::
  "Train \<Rightarrow> Train \<Rightarrow> TrackSection \<Rightarrow> int \<Rightarrow> int \<Rightarrow> int \<Rightarrow> int \<Rightarrow> Conflict option" where
  "create_conflict t1 t2 section start1 end1 start2 end2 =
     (let conflict_start = max start1 start2;
          conflict_end = min end1 end2
      in if conflict_start \<ge> conflict_end then None
         else Some \<lparr>train1 = t1, train2 = t2, conflict_section_id = section_id section,
                    conflict_start_time = conflict_start, conflict_end_time = conflict_end,
                    severity = calculate_conflict_severity t1 t2 conflict_start conflict_end section\<rparr>)"

definition similar_conflict :: "Conflict \<Rightarrow> Conflict \<Rightarrow> bool" where
  "similar_conflict c new_conflict \<longleftrightarrow>
     ((train_id (train1 c) = train_id (train1 new_conflict) \<and>
       train_id (train2 c) = train_id (train2 new_conflict)) \<or>
      (train_id (train1 c) = train_id (train2 new_conflict) \<and>
       train_id (train2 c) = train_id (train1 new_conflict))) \<and>
     conflict_section_id c = conflict_section_id new_conflict"

definition conflict_exists :: "Conflict list \<Rightarrow> Conflict \<Rightarrow> bool" where
  "conflict_exists conflicts new_conflict = list_ex (\<lambda>c. similar_conflict c new_conflict) conflicts"

definition margin_overlap :: "int \<Rightarrow> occupancy \<Rightarrow> occupancy \<Rightarrow> bool" where
  "margin_overlap m x y =
     (let safety_margin = timedelta_minutes m;
          overlap_start = max (fst (snd x)) (fst (snd y));
          overlap_end = min (snd (snd x) + safety_margin) (snd (snd y) + safety_margin)
      in overlap_start < overlap_end)"

definition overlapping_trains :: "int \<Rightarrow> occupancy list \<Rightarrow> nat \<Rightarrow> occupancy list" where
  "overlapping_trains m train_times i =
     map (\<lambda>j. train_times ! j)
       (filter (\<lambda>j. i \<noteq> j \<and> margin_overlap m (train_times ! i) (train_times ! j))
          [0..<length train_times])"

definition add_conflict :: "TrackSection \<Rightarrow> occupancy \<Rightarrow> occupancy \<Rightarrow> Conflict list \<Rightarrow> Conflict list" where
  "add_conflict section x y conflicts =
     (case create_conflict (fst x) (fst y) section (fst (snd x)) (snd (snd x))
             (fst (snd y)) (snd (snd y)) of
        None \<Rightarrow> conflicts
      | Some conflict \<Rightarrow>
          if conflict_exists conflicts conflict then conflicts else conflicts @ [conflict])"

definition detect_section_step ::
  "int \<Rightarrow> occupancy list \<Rightarrow> TrackSection \<Rightarrow> nat \<Rightarrow> Conflict list \<Rightarrow> Conflict list" where
  "detect_section_step m train_times section i conflicts =
     (let overlapping = overlapping_trains m train_times i
      in if int (length overlapping) \<ge> capacity section
         then fold (add_conflict section (train_times ! i)) overlapping conflicts
         else conflicts)"

definition detect_section_conflicts :: "int \<Rightarrow> occupancy list \<Rightarrow> TrackSection \<Rightarrow> Conflict list" where
  "detect_section_conflicts m train_times section =
     fold (detect_section_step m train_times section) [0..<length train_times] []"

definition section_dict :: "TrackSection list \<Rightarrow> (string \<times> TrackSection) list" where
  "section_dict sections = fold (\<lambda>s d. dict_set d (section_id s) s) sections []"

fun detect_loop ::
  "int \<Rightarrow> (string \<times> TrackSection) list \<Rightarrow> (string \<times> occupancy list) list \<Rightarrow> Conflict list
     \<Rightarrow> error + Conflict list" where
  "detect_loop m sd [] conflicts = Inr conflicts"
| "detect_loop m sd ((sid, train_times) # rest) conflicts =
     (case map_of sd sid of
        None \<Rightarrow> Inl (KeyError sid)
      | Some section \<Rightarrow>
          detect_loop m sd rest (conflicts @ detect_section_conflicts m train_times section))"

definition detect_conflicts :: "int \<Rightarrow> Train list \<Rightarrow> TrackSection list \<Rightarrow> error + Conflict list" where
  "detect_conflicts m trains sections =
     detect_loop m (section_dict sections) (generate_section_schedules trains) []"


subsection \<open>Conflict summary\<close>

text \<open>
  The dictionary returned by \<^verbatim>\<open>get_conflict_summary\<close> as a record; a key the dictionary
  may lack is an optional field (\<open>None\<close> when the key is absent). The two
  \<^verbatim>\<open>list(set(...))\<close> values have no determined order and are sets here.
\<close>

record summary =
  total_conflicts :: int
  severity_breakdown :: "(int \<times> int) list"
  sections_affected :: "string set"
  trains_affected :: "string set"
  critical_conflicts :: "int option"

definition summary_step ::
  "Conflict \<Rightarrow> (int \<times> int) list \<times> string set \<times> string set
     \<Rightarrow> (int \<times> int) list \<times> string set \<times> string set" where
  "summary_step conflict acc =
     (case acc of (breakdown, sections, trains) \<Rightarrow>
        (dict_set breakdown (severity conflict) (dict_get breakdown (severity conflict) 0 + 1),
         insert (conflict_section_id conflict) sections,
         insert (train_number (train2 conflict)) (insert (train_number (train1 conflict)) trains)))"

definition get_conflict_summary :: "Conflict list \<Rightarrow> summary" where
  "get_conflict_summary conflicts =
     (if conflicts = [] then
        \<lparr>total_conflicts = 0, severity_breakdown = [], sections_affected = {},
         trains_affected = {}, critical_conflicts = None\<rparr>
      else
        (case fold summary_step conflicts ([], {}, {}) of (breakdown, sections, trains) \<Rightarrow>
           \<lparr>total_conflicts = int (length conflicts), severity_breakdown = breakdown,
            sections_affected = sections, trains_affected = trains,
            critical_conflicts = Some (int (length (filter (\<lambda>c. severity c \<ge> 4) conflicts)))\<rparr>))"

section \<open>Schedule optimizer (optimizer.py)\<close>

definition sections_overlap :: "int \<Rightarrow> int \<Rightarrow> int \<Rightarrow> int \<Rightarrow> int \<Rightarrow> TrackSection \<Rightarrow> bool" where
  "sections_overlap start1 end1 start2 end2 safety_margin section =
     (if capacity section = 1
      then \<not> (end1 + safety_margin \<le> start2 \<or> end2 + safety_margin \<le> start1)
      else \<not> (end1 \<le> start2 \<or> end2 \<le> start1))"

fun time_to_section :: "Train \<Rightarrow> string \<Rightarrow> string list \<Rightarrow> int" where
  "time_to_section scheduled_train sid [] = 0"
| "time_to_section scheduled_train sid (route_section # rest) =
     (if route_section = sid then 0
      else dict_get (estimated_section_times scheduled_train) route_section 10
             + time_to_section scheduled_train sid rest)"

text \<open>\<^verbatim>\<open>int(x)\<close> on a float truncates towards zero.\<close>

definition py_int :: "rat \<Rightarrow> int" where
  "py_int x = (if x \<ge> 0 then \<lfloor>x\<rfloor> else \<lceil>x\<rceil>)"

definition scheduled_section_start :: "Train \<Rightarrow> string \<Rightarrow> int" where
  "scheduled_section_start scheduled_train sid =
     (let scheduled_arrival = get_actual_arrival scheduled_train;
          time_to_section = time_to_section scheduled_train sid (route scheduled_train)
      in scheduled_arrival + timedelta_minutes time_to_section)"

definition scheduled_section_end :: "Train \<Rightarrow> string \<Rightarrow> int" where
  "scheduled_section_end scheduled_train sid =
     (let scheduled_section_duration = dict_get (estimated_section_times scheduled_train) sid 10
      in scheduled_section_start scheduled_train sid + timedelta_minutes scheduled_section_duration)"

text \<open>One iteration of the loop over \<^verbatim>\<open>scheduled_trains\<close> in \<^verbatim>\<open>_calculate_required_delay\<close>.\<close>

definition delay_step ::
  "int \<Rightarrow> Train \<Rightarrow> string \<Rightarrow> int \<Rightarrow> int \<Rightarrow> TrackSection \<Rightarrow> Train \<Rightarrow> rat \<Rightarrow> rat" where
  "delay_step m train sid planned_start planned_end section scheduled_train max_delay_needed =
     (if sid \<notin> set (route scheduled_train) then max_delay_needed
      else if sections_overlap planned_start planned_end
                (scheduled_section_start scheduled_train sid)
                (scheduled_section_end scheduled_train sid) (timedelta_minutes m) section
      then (if priority_value (priority train) > priority_value (priority scheduled_train)
            then max max_delay_needed
                   (float_minutes (scheduled_section_end scheduled_train sid
                                     + timedelta_minutes m - planned_start))
            else max_delay_needed)
      else max_delay_needed)"

definition calculate_required_delay ::
  "int \<Rightarrow> Train \<Rightarrow> string \<Rightarrow> int \<Rightarrow> int \<Rightarrow> Train list \<Rightarrow> TrackSection \<Rightarrow> int" where
  "calculate_required_delay m train sid planned_start planned_end scheduled_trains section =
     max 0 (py_int (fold (delay_step m train sid planned_start planned_end section)
                      scheduled_trains 0))"

text \<open>
  The loop over \<^verbatim>\<open>train.route\<close> in \<^verbatim>\<open>_optimize_single_train\<close>, with its two variables
  \<^verbatim>\<open>current_arrival\<close> and \<^verbatim>\<open>total_delay_added\<close>; it returns the final
  \<^verbatim>\<open>total_delay_added\<close>, or the \<^verbatim>\<open>KeyError\<close> of \<^verbatim>\<open>sections[section_id]\<close>.
\<close>

fun route_delay ::
  "int \<Rightarrow> Train \<Rightarrow> Train list \<Rightarrow> (string \<times> TrackSection) list \<Rightarrow> string list
     \<Rightarrow> int \<Rightarrow> int \<Rightarrow> error + int" where
  "route_delay m train scheduled_trains sd [] current_arrival total_delay_added =
     Inr total_delay_added"
| "route_delay m train scheduled_trains sd (sid # rest) current_arrival total_delay_added =
     (case map_of sd sid of
        None \<Rightarrow> Inl (KeyError sid)
      | Some section \<Rightarrow>
          (let section_start_time = current_arrival + timedelta_minutes total_delay_added;
               section_duration = dict_get (estimated_section_times train) sid 10;
               section_end_time = section_start_time + timedelta_minutes section_duration;
               required_delay = calculate_required_delay m train sid section_start_time
                                  section_end_time scheduled_trains section
           in if required_delay > 0
              then route_delay m train scheduled_trains sd rest
                     (get_actual_arrival train
                        + timedelta_minutes (total_delay_added + required_delay))
                     (total_delay_added + required_delay)
              else route_delay m train scheduled_trains sd rest current_arrival
                     total_delay_added))"

definition optimize_single_train ::
  "int \<Rightarrow> Train \<Rightarrow> Train list \<Rightarrow> (string \<times> TrackSection) list \<Rightarrow> error + Train" where
  "optimize_single_train m train scheduled_trains sd =
     (case route_delay m train scheduled_trains sd (route train) (get_actual_arrival train) 0 of
        Inl e \<Rightarrow> Inl e
      | Inr total_delay_added \<Rightarrow>
          Inr (if total_delay_added > 0
               then train\<lparr>current_delay_minutes := current_delay_minutes train + total_delay_added\<rparr>
               else train))"

fun greedy_loop ::
  "int \<Rightarrow> (string \<times> TrackSection) list \<Rightarrow> Train list \<Rightarrow> Train list \<Rightarrow> error + Train list" where
  "greedy_loop m sd [] optimized = Inr optimized"
| "greedy_loop m sd (train # rest) optimized =
     (case optimize_single_train m train optimized sd of
        Inl e \<Rightarrow> Inl e
      | Inr optimized_train \<Rightarrow> greedy_loop m sd rest (optimized @ [optimized_train]))"

definition apply_greedy_optimization ::
  "int \<Rightarrow> Train list \<Rightarrow> TrackSection list \<Rightarrow> error + Train list" where
  "apply_greedy_optimization m trains sections =
     (case trains of
        [] \<Rightarrow> Inr []
      | first # rest \<Rightarrow> greedy_loop m (section_dict sections) rest [first])"


subsection \<open>Schedule generation\<close>

text \<open>
  A slot is the dictionary built by \<^verbatim>\<open>Schedule.add_train_slot\<close>. Of a \<^verbatim>\<open>Schedule\<close>,
  \<^verbatim>\<open>schedule_id\<close> and \<^verbatim>\<open>created_at\<close> come from the clock and are not modelled.
\<close>

record slot =
  slot_train_id :: string
  slot_train_number :: string
  slot_train_type :: string
  slot_priority :: int
  start_time :: int
  end_time :: int

record Schedule =
  schedule_section_id :: string
  train_slots :: "slot list"
  schedule_conflicts :: "Conflict list"
  optimized :: bool

definition add_train_slot :: "Schedule \<Rightarrow> Train \<Rightarrow> int \<Rightarrow> int \<Rightarrow> Schedule" where
  "add_train_slot sch train start_t end_t =
     sch\<lparr>train_slots := train_slots sch @
            [\<lparr>slot_train_id = train_id train, slot_train_number = train_number train,
              slot_train_type = train_type_value (train_type train),
              slot_priority = priority_value (priority train),
              start_time = start_t, end_time = end_t\<rparr>]\<rparr>"

definition get_occupancy_at_time :: "Schedule \<Rightarrow> int \<Rightarrow> string list" where
  "get_occupancy_at_time sch check_time =
     map slot_train_id
       (filter (\<lambda>sl. start_time sl \<le> check_time \<and> check_time \<le> end_time sl) (train_slots sch))"

fun schedule_route ::
  "Train \<Rightarrow> int \<Rightarrow> string list \<Rightarrow> (string \<times> Schedule) list
     \<Rightarrow> error + (string \<times> Schedule) list" where
  "schedule_route train current_time [] schedules = Inr schedules"
| "schedule_route train current_time (sid # rest) schedules =
     (let section_duration = dict_get (estimated_section_times train) sid 10;
          start_t = current_time;
          end_t = current_time + timedelta_minutes section_duration
      in case map_of schedules sid of
           None \<Rightarrow> Inl (KeyError sid)
         | Some sch \<Rightarrow>
             schedule_route train end_t rest
               (dict_set schedules sid (add_train_slot sch train start_t end_t)))"

fun schedule_trains ::
  "Train list \<Rightarrow> (string \<times> Schedule) list \<Rightarrow> error + (string \<times> Schedule) list" where
  "schedule_trains [] schedules = Inr schedules"
| "schedule_trains (train # rest) schedules =
     (case schedule_route train (get_actual_arrival train) (route train) schedules of
        Inl e \<Rightarrow> Inl e
      | Inr schedules' \<Rightarrow> schedule_trains rest schedules')"

definition generate_optimized_schedule ::
  "Train list \<Rightarrow> TrackSection list \<Rightarrow> error + (string \<times> Schedule) list" where
  "generate_optimized_schedule trains sections =
     schedule_trains trains
       (fold (\<lambda>s d. dict_set d (section_id s)
                \<lparr>schedule_section_id = section_id s, train_slots = [],
                 schedule_conflicts = [], optimized = True\<rparr>) sections [])"

subsection \<open>Metrics\<close>

text \<open>
  \<^verbatim>\<open>round(x, n)\<close> on a float: the multiple of \<open>10\<^sup>-\<^sup>n\<close> nearest to the exact value
  of \<open>x\<close>, ties to the even one, as a double.
\<close>

definition py_round :: "rat \<Rightarrow> nat \<Rightarrow> rat" where
  "py_round x n = round_to_double (of_int (round_half_even (x * 10 ^ n)) / 10 ^ n)"

record Metrics =
  total_trains :: int
  original_conflicts :: int
  optimized_conflicts :: int
  conflicts_reduced :: int
  original_total_delay :: int
  optimized_total_delay :: int
  additional_delay_introduced :: int
  average_delay_per_train :: rat
  throughput_trains_per_hour :: rat
  punctuality_percentage :: rat
  optimization_effectiveness :: rat

text \<open>
  The throughput computation of \<^verbatim>\<open>_calculate_metrics\<close>. In
  \<^verbatim>\<open>len(original_trains) / (time_span.total_seconds() / 3600)\<close> Python raises
  \<^verbatim>\<open>ZeroDivisionError\<close> when the divisor is the float \<open>0.0\<close>.
\<close>

definition throughput :: "Train list \<Rightarrow> error + rat" where
  "throughput original_trains =
     (case original_trains of
        [] \<Rightarrow> Inr 0
      | t # ts \<Rightarrow>
          (let time_span = fold max (map get_actual_departure ts) (get_actual_departure t)
                             - fold min (map get_actual_arrival ts) (get_actual_arrival t);
               hours = round_to_double (round_to_double (of_int time_span / 1000000) / 3600)
           in if hours = 0 then Inl ZeroDivisionError
              else Inr (round_to_double (of_nat (length original_trains) / hours))))"

definition calculate_metrics ::
  "int \<Rightarrow> Train list \<Rightarrow> Train list \<Rightarrow> TrackSection list \<Rightarrow> error + Metrics" where
  "calculate_metrics m original_trains optimized_trains sections =
     (let total_original_delay = sum_list (map current_delay_minutes original_trains);
          total_optimized_delay = sum_list (map current_delay_minutes optimized_trains);
          additional_delay = total_optimized_delay - total_original_delay
      in case detect_conflicts m original_trains sections of
           Inl e \<Rightarrow> Inl e
         | Inr original_cs \<Rightarrow>
       (case detect_conflicts m optimized_trains sections of
           Inl e \<Rightarrow> Inl e
         | Inr optimized_cs \<Rightarrow>
       (case throughput original_trains of
           Inl e \<Rightarrow> Inl e
         | Inr thr \<Rightarrow>
           (let on_time_trains =
                  int (length (filter (\<lambda>t. current_delay_minutes t \<le> 5) optimized_trains));
                punctuality =
                  (if optimized_trains \<noteq> []
                   then round_to_double
                          (round_to_double (of_int on_time_trains / of_nat (length optimized_trains))
                             * 100)
                   else 0)
            in Inr \<lparr>total_trains = int (length original_trains),
                    original_conflicts = int (length original_cs),
                    optimized_conflicts = int (length optimized_cs),
                    conflicts_reduced = int (length original_cs) - int (length optimized_cs),
                    original_total_delay = total_original_delay,
                    optimized_total_delay = total_optimized_delay,
                    additional_delay_introduced = additional_delay,
                    average_delay_per_train =
                      (if optimized_trains \<noteq> []
                       then round_to_double
                              (of_int total_optimized_delay / of_nat (length optimized_trains))
                       else 0),
                    throughput_trains_per_hour = py_round thr 2,
                    punctuality_percentage = py_round punctuality 1,
                    optimization_effectiveness =
                      py_round
                        (round_to_double
                           (round_to_double
                              (of_int (int (length original_cs) - int (length optimized_cs))
                                 / of_int (max (int (length original_cs)) 1))
                            * 100)) 1\<rparr>))))"

subsection \<open>Optimization\<close>

record optimize_result =
  optimized_trains :: "Train list"
  schedule :: "(string \<times> Schedule) list"
  metrics :: Metrics
  conflicts_remaining :: "Conflict list"

definition sort_trains :: "Train list \<Rightarrow> Train list" where
  "sort_trains trains =
     sort_key (\<lambda>t. (priority_value (priority t), get_actual_arrival t)) trains"

definition optimize_schedule ::
  "int \<Rightarrow> Train list \<Rightarrow> TrackSection list \<Rightarrow> error + optimize_result" where
  "optimize_schedule m trains sections =
     (let working_trains = sort_trains trains
      in case apply_greedy_optimization m working_trains sections of
           Inl e \<Rightarrow> Inl e
         | Inr optimized_ts \<Rightarrow>
       (case generate_optimized_schedule optimized_ts sections of
           Inl e \<Rightarrow> Inl e
         | Inr sched \<Rightarrow>
       (case calculate_metrics m trains optimized_ts sections of
           Inl e \<Rightarrow> Inl e
         | Inr mets \<Rightarrow>
       (case detect_conflicts m optimized_ts sections of
           Inl e \<Rightarrow> Inl e
         | Inr remaining \<Rightarrow>
             Inr \<lparr>optimized_trains = optimized_ts, schedule = sched, metrics = mets,
                  conflicts_remaining = remaining\<rparr>))))"


section \<open>What-if analyzer (optimizer.py)\<close>

text \<open>Decimal notation of an integer, as an f-string prints it.\<close>

function str_nat :: "nat \<Rightarrow> string" where
  "str_nat n =
     (if n < 10 then [''0123456789'' ! n]
      else str_nat (n div 10) @ [''0123456789'' ! (n mod 10)])"
  by pat_completeness auto
termination
  by (relation "measure id") auto

definition str_int :: "int \<Rightarrow> string" where
  "str_int i = (if i < 0 then CHR ''-'' # str_nat (nat (- i)) else str_nat (nat i))"

text \<open>
  The loop of \<^verbatim>\<open>analyze_delay_scenario\<close> over the copied list: the first train with
  the id gets the delay, and the loop ends there; with no such train the list is
  left as it is. The copy's elements are taken to be separate objects, as they are
  when the caller's list holds each train object once. (Were one object at several
  positions of the caller's list, the copy would share it likewise and the write
  would show at each of them; with a delay of 0 or an id that no train has, nothing
  is changed either way.)
\<close>

fun apply_delay :: "string \<Rightarrow> int \<Rightarrow> Train list \<Rightarrow> Train list" where
  "apply_delay tid d [] = []"
| "apply_delay tid d (train # rest) =
     (if train_id train = tid
      then train\<lparr>current_delay_minutes := current_delay_minutes train + d\<rparr> # rest
      else train # apply_delay tid d rest)"

record delay_impact =
  additional_conflicts :: int
  additional_system_delay :: int
  punctuality_impact :: rat

record delay_report =
  scenario_description :: string
  original_metrics :: Metrics
  scenario_metrics :: Metrics
  impact :: delay_impact

definition analyze_delay_scenario ::
  "int \<Rightarrow> Train list \<Rightarrow> TrackSection list \<Rightarrow> string \<Rightarrow> int \<Rightarrow> error + delay_report" where
  "analyze_delay_scenario m trains sections tid additional_delay_minutes =
     (let scenario_trains = apply_delay tid additional_delay_minutes trains
      in case optimize_schedule m trains sections of
           Inl e \<Rightarrow> Inl e
         | Inr original_result \<Rightarrow>
       (case optimize_schedule m scenario_trains sections of
           Inl e \<Rightarrow> Inl e
         | Inr scenario_result \<Rightarrow>
             Inr \<lparr>scenario_description =
                    ''Train '' @ tid @ '' delayed by '' @ str_int additional_delay_minutes
                      @ '' minutes'',
                  original_metrics = metrics original_result,
                  scenario_metrics = metrics scenario_result,
                  impact =
                    \<lparr>additional_conflicts =
                       optimized_conflicts (metrics scenario_result)
                         - optimized_conflicts (metrics original_result),
                     additional_system_delay =
                       optimized_total_delay (metrics scenario_result)
                         - optimized_total_delay (metrics original_result),
                     punctuality_impact =
                       round_to_double
                         (punctuality_percentage (metrics scenario_result)
                            - punctuality_percentage (metrics original_result))\<rparr>\<rparr>))"

text \<open>
  The loop of \<^verbatim>\<open>analyze_priority_change\<close>: the changed list and the value of
  \<^verbatim>\<open>original_priority\<close>, which stays \<^verbatim>\<open>None\<close> when no train has the id.
\<close>

fun apply_priority ::
  "string \<Rightarrow> TrainPriority \<Rightarrow> Train list \<Rightarrow> Train list \<times> TrainPriority option" where
  "apply_priority tid new_priority [] = ([], None)"
| "apply_priority tid new_priority (train # rest) =
     (if train_id train = tid
      then (train\<lparr>priority := new_priority\<rparr> # rest, Some (priority train))
      else (case apply_priority tid new_priority rest of
              (rest', original_priority) \<Rightarrow> (train # rest', original_priority)))"

record priority_impact =
  conflicts_change :: int
  delay_change :: int
  punctuality_change :: rat

record priority_report =
  priority_scenario_description :: string
  priority_original_metrics :: Metrics
  priority_scenario_metrics :: Metrics
  priority_impact :: priority_impact

text \<open>
  With \<^verbatim>\<open>original_priority\<close> still \<^verbatim>\<open>None\<close>, building the description evaluates
  \<^verbatim>\<open>original_priority.name\<close> and raises \<^verbatim>\<open>AttributeError\<close>, after both optimizations.
\<close>

definition analyze_priority_change ::
  "int \<Rightarrow> Train list \<Rightarrow> TrackSection list \<Rightarrow> string \<Rightarrow> TrainPriority
     \<Rightarrow> error + priority_report" where
  "analyze_priority_change m trains sections tid new_priority =
     (case apply_priority tid new_priority trains of (scenario_trains, original_priority) \<Rightarrow>
       (case optimize_schedule m trains sections of
           Inl e \<Rightarrow> Inl e
         | Inr original_result \<Rightarrow>
       (case optimize_schedule m scenario_trains sections of
           Inl e \<Rightarrow> Inl e
         | Inr scenario_result \<Rightarrow>
       (case original_priority of
           None \<Rightarrow> Inl AttributeError
         | Some p \<Rightarrow>
             Inr \<lparr>priority_scenario_description =
                    ''Train '' @ tid @ '' priority changed from '' @ priority_name p
                      @ '' to '' @ priority_name new_priority,
                  priority_original_metrics = metrics original_result,
                  priority_scenario_metrics = metrics scenario_result,
                  priority_impact =
                    \<lparr>conflicts_change =
                       optimized_conflicts (metrics scenario_result)
                         - optimized_conflicts (metrics original_result),
                     delay_change =
                       optimized_total_delay (metrics scenario_result)
                         - optimized_total_delay (metrics original_result),
                     punctuality_change =
                       round_to_double
                         (punctuality_percentage (metrics scenario_result)
                            - punctuality_percentage (metrics original_result))\<rparr>\<rparr>))))"

section \<open>Object identity: the optimizer on a store of train objects\<close>

text \<open>
  To state what \<^verbatim>\<open>optimize_schedule\<close> does to the caller's objects, train objects
  live in a store: a list of \<^verbatim>\<open>Train\<close> values, the object with reference \<open>r\<close> being
  element \<open>r\<close>. A list of trains is a list of references. \<^verbatim>\<open>copy.deepcopy\<close>
  allocates new objects at the end of the store; on a list it copies an object
  that occurs several times once (its memo). Every function returns the new store.
  Computations that only read the objects are the functions above, applied to the
  values read from the store. The route list and the time dictionary of a train are
  part of its value: a deep copy copies them with the train, and nothing in the
  engine writes to them.
\<close>

type_synonym ref = nat
type_synonym store = "Train list"

fun deepcopy_list :: "store \<Rightarrow> (ref \<times> ref) list \<Rightarrow> ref list \<Rightarrow> store \<times> ref list" where
  "deepcopy_list h memo [] = (h, [])"
| "deepcopy_list h memo (r # rs) =
     (case map_of memo r of
        Some r' \<Rightarrow> (case deepcopy_list h memo rs of (h', rs') \<Rightarrow> (h', r' # rs'))
      | None \<Rightarrow>
          (case deepcopy_list (h @ [h ! r]) ((r, length h) # memo) rs of
             (h', rs') \<Rightarrow> (h', length h # rs')))"

definition optimize_single_train_h ::
  "int \<Rightarrow> store \<Rightarrow> ref \<Rightarrow> ref list \<Rightarrow> (string \<times> TrackSection) list \<Rightarrow> store \<times> (error + ref)" where
  "optimize_single_train_h m h train scheduled_trains sd =
     (let optimized_train = length h;
          h1 = h @ [h ! train]
      in case route_delay m (h1 ! train) (map (\<lambda>r. h1 ! r) scheduled_trains) sd
                (route (h1 ! train)) (get_actual_arrival (h1 ! train)) 0 of
           Inl e \<Rightarrow> (h1, Inl e)
         | Inr total_delay_added \<Rightarrow>
             (if total_delay_added > 0
              then h1[optimized_train := (h1 ! optimized_train)
                        \<lparr>current_delay_minutes :=
                           current_delay_minutes (h1 ! train) + total_delay_added\<rparr>]
              else h1,
              Inr optimized_train))"

fun greedy_loop_h ::
  "int \<Rightarrow> (string \<times> TrackSection) list \<Rightarrow> store \<Rightarrow> ref list \<Rightarrow> ref list
     \<Rightarrow> store \<times> (error + ref list)" where
  "greedy_loop_h m sd h [] optimized_ts = (h, Inr optimized_ts)"
| "greedy_loop_h m sd h (train # rest) optimized_ts =
     (case optimize_single_train_h m h train optimized_ts sd of
        (h', Inl e) \<Rightarrow> (h', Inl e)
      | (h', Inr optimized_train) \<Rightarrow>
          greedy_loop_h m sd h' rest (optimized_ts @ [optimized_train]))"

definition apply_greedy_optimization_h ::
  "int \<Rightarrow> store \<Rightarrow> ref list \<Rightarrow> TrackSection list \<Rightarrow> store \<times> (error + ref list)" where
  "apply_greedy_optimization_h m h trains sections =
     (case trains of
        [] \<Rightarrow> (h, Inr [])
      | first # rest \<Rightarrow> greedy_loop_h m (section_dict sections) h rest [first])"

definition optimize_schedule_h ::
  "int \<Rightarrow> store \<Rightarrow> ref list \<Rightarrow> TrackSection list
     \<Rightarrow> store \<times> (error + ref list \<times> optimize_result)" where
  "optimize_schedule_h m h trains sections =
     (case deepcopy_list h [] trains of (h1, working_trains) \<Rightarrow>
       (let working_trains =
              sort_key (\<lambda>r. (priority_value (priority (h1 ! r)), get_actual_arrival (h1 ! r)))
                working_trains
        in case apply_greedy_optimization_h m h1 working_trains sections of
             (h2, Inl e) \<Rightarrow> (h2, Inl e)
           | (h2, Inr optimized_ts) \<Rightarrow>
         (case generate_optimized_schedule (map (\<lambda>r. h2 ! r) optimized_ts) sections of
             Inl e \<Rightarrow> (h2, Inl e)
           | Inr sched \<Rightarrow>
         (case calculate_metrics m (map (\<lambda>r. h2 ! r) trains) (map (\<lambda>r. h2 ! r) optimized_ts)
                 sections of
             Inl e \<Rightarrow> (h2, Inl e)
           | Inr mets \<Rightarrow>
         (case detect_conflicts m (map (\<lambda>r. h2 ! r) optimized_ts) sections of
             Inl e \<Rightarrow> (h2, Inl e)
           | Inr remaining \<Rightarrow>
               (h2, Inr (optimized_ts,
                         \<lparr>optimized_trains = map (\<lambda>r. h2 ! r) optimized_ts, schedule = sched,
                          metrics = mets, conflicts_remaining = remaining\<rparr>)))))))"

section \<open>Sample data (models.py)\<close>

definition create_sample_section :: "TrackSection list" where
  "create_sample_section =
     [\<lparr>section_id = ''SEC_001'', name = ''Platform A'', section_type = PLATFORM,
        length_km = 1 / 2, max_speed_kmh = 30, capacity = 2, signal_blocks = 1\<rparr>,
      \<lparr>section_id = ''SEC_002'', name = ''Main Line North'', section_type = DOUBLE_LINE,
        length_km = 5, max_speed_kmh = 120, capacity = 2, signal_blocks = 1\<rparr>,
      \<lparr>section_id = ''SEC_003'', name = ''Junction X'', section_type = JUNCTION,
        length_km = 1 / 5, max_speed_kmh = 40, capacity = 1, signal_blocks = 1\<rparr>,
      \<lparr>section_id = ''SEC_004'', name = ''Main Line South'', section_type = SINGLE_LINE,
        length_km = 8, max_speed_kmh = 100, capacity = 1, signal_blocks = 1\<rparr>,
      \<lparr>section_id = ''SEC_005'', name = ''Platform B'', section_type = PLATFORM,
        length_km = 1 / 2, max_speed_kmh = 30, capacity = 2, signal_blocks = 1\<rparr>]"

definition sample_T001 :: "int \<Rightarrow> Train" where
  "sample_T001 base_time =
     \<lparr>train_id = ''T001'', train_number = ''12345'', train_type = EXPRESS, priority = HIGH,
      route = [''SEC_001'', ''SEC_002'', ''SEC_003'', ''SEC_004'', ''SEC_005''],
      scheduled_arrival = base_time + timedelta_minutes 60,
      scheduled_departure = base_time + timedelta_minutes 90,
      current_section = None, current_delay_minutes = 0, train_max_speed_kmh = 100,
      estimated_section_times = [(''SEC_001'', 5), (''SEC_002'', 15), (''SEC_003'', 5),
                                 (''SEC_004'', 20), (''SEC_005'', 5)]\<rparr>"

definition sample_T002 :: "int \<Rightarrow> Train" where
  "sample_T002 base_time =
     \<lparr>train_id = ''T002'', train_number = ''56789'', train_type = LOCAL, priority = MEDIUM,
      route = [''SEC_005'', ''SEC_004'', ''SEC_003'', ''SEC_002'', ''SEC_001''],
      scheduled_arrival = base_time + timedelta_minutes 75,
      scheduled_departure = base_time + timedelta_minutes 105,
      current_section = None, current_delay_minutes = 0, train_max_speed_kmh = 100,
      estimated_section_times = [(''SEC_005'', 8), (''SEC_004'', 25), (''SEC_003'', 8),
                                 (''SEC_002'', 18), (''SEC_001'', 8)]\<rparr>"

definition sample_T003 :: "int \<Rightarrow> Train" where
  "sample_T003 base_time =
     \<lparr>train_id = ''T003'', train_number = ''FR001'', train_type = FREIGHT, priority = LOW,
      route = [''SEC_001'', ''SEC_002'', ''SEC_004'', ''SEC_005''],
      scheduled_arrival = base_time + timedelta_minutes 120,
      scheduled_departure = base_time + timedelta_minutes 180,
      current_section = None, current_delay_minutes = 0, train_max_speed_kmh = 100,
      estimated_section_times = [(''SEC_001'', 10), (''SEC_002'', 30), (''SEC_004'', 40),
                                 (''SEC_005'', 10)]\<rparr>"

definition create_sample_trains :: "int \<Rightarrow> Train list" where
  "create_sample_trains base_time =
     [sample_T001 base_time, sample_T002 base_time, sample_T003 base_time]"


section \<open>Example inputs\<close>

text \<open>The conflict the detector reports on the sample data: the two trains on the single line.\<close>

definition sample_conflict :: Conflict where
  "sample_conflict =
     \<lparr>train1 = sample_T002 0, train2 = sample_T001 0, conflict_section_id = ''SEC_004'',
      conflict_start_time = timedelta_minutes 85, conflict_end_time = timedelta_minutes 105,
      severity = 4\<rparr>"

text \<open>A train whose scheduled departure is its scheduled arrival.\<close>

definition zero_span_train :: "int \<Rightarrow> Train" where
  "zero_span_train base_time =
     \<lparr>train_id = ''T100'', train_number = ''100'', train_type = LOCAL, priority = MEDIUM,
      route = [''SEC_001''],
      scheduled_arrival = base_time, scheduled_departure = base_time,
      current_section = None, current_delay_minutes = 0, train_max_speed_kmh = 100,
      estimated_section_times = [(''SEC_001'', 10)]\<rparr>"

definition critical_train :: Train where
  "critical_train = (sample_T001 0)\<lparr>priority := CRITICAL\<rparr>"

definition junction_x :: TrackSection where
  "junction_x =
     \<lparr>section_id = ''SEC_003'', name = ''Junction X'', section_type = JUNCTION,
      length_km = 1 / 5, max_speed_kmh = 40, capacity = 1, signal_blocks = 1\<rparr>"

text \<open>A train whose route names a section that the sample network does not have.\<close>

definition lost_train :: "int \<Rightarrow> Train" where
  "lost_train base_time =
     \<lparr>train_id = ''T200'', train_number = ''200'', train_type = LOCAL, priority = MEDIUM,
      route = [''SEC_999''],
      scheduled_arrival = base_time, scheduled_departure = base_time + timedelta_minutes 30,
      current_section = None, current_delay_minutes = 0, train_max_speed_kmh = 100,
      estimated_section_times = [(''SEC_999'', 10)]\<rparr>"

text \<open>
  Two single-track sections in a row, an express that needs 10 and 90 minutes for
  them, and a freight train on the same route at the same time that needs 15 and 10
  minutes.
\<close>

definition two_sections :: "TrackSection list" where
  "two_sections =
     [\<lparr>section_id = ''A'', name = ''Block A'', section_type = SINGLE_LINE,
        length_km = 2, max_speed_kmh = 80, capacity = 1, signal_blocks = 1\<rparr>,
      \<lparr>section_id = ''B'', name = ''Block B'', section_type = SINGLE_LINE,
        length_km = 9, max_speed_kmh = 80, capacity = 1, signal_blocks = 1\<rparr>]"



text \<open>
  Three occupancy entries of one section whose windows all overlap, and the entries
  of the sample trains in the double-track section \<^verbatim>\<open>SEC_002\<close>, in start order.
\<close>

definition three_times :: "occupancy list" where
  "three_times =
     [(sample_T001 0, 0, timedelta_minutes 20),
      (sample_T002 0, timedelta_minutes 5, timedelta_minutes 25),
      (sample_T003 0, timedelta_minutes 10, timedelta_minutes 30)]"

definition sample_times_002 :: "occupancy list" where
  "sample_times_002 =
     [(sample_T001 0, timedelta_minutes 65, timedelta_minutes 80),
      (sample_T002 0, timedelta_minutes 116, timedelta_minutes 134),
      (sample_T003 0, timedelta_minutes 130, timedelta_minutes 160)]"

definition main_line_north :: TrackSection where
  "main_line_north =
     \<lparr>section_id = ''SEC_002'', name = ''Main Line North'', section_type = DOUBLE_LINE,
      length_km = 5, max_speed_kmh = 120, capacity = 2, signal_blocks = 1\<rparr>"

definition main_line_south :: TrackSection where
  "main_line_south =
     \<lparr>section_id = ''SEC_004'', name = ''Main Line South'', section_type = SINGLE_LINE,
      length_km = 8, max_speed_kmh = 100, capacity = 1, signal_blocks = 1\<rparr>"

text \<open>
  Two trains through block A of the two-section line, the second entering two minutes
  after the first has left.
\<close>

definition first_train :: Train where
  "first_train =
     \<lparr>train_id = ''F'', train_number = ''3'', train_type = LOCAL, priority = MEDIUM,
      route = [''A''], scheduled_arrival = 0, scheduled_departure = timedelta_minutes 10,
      current_section = None, current_delay_minutes = 0, train_max_speed_kmh = 100,
      estimated_section_times = [(''A'', 10)]\<rparr>"

definition second_train :: Train where
  "second_train =
     \<lparr>train_id = ''G'', train_number = ''4'', train_type = LOCAL, priority = MEDIUM,
      route = [''A''], scheduled_arrival = timedelta_minutes 12,
      scheduled_departure = timedelta_minutes 22,
      current_section = None, current_delay_minutes = 0, train_max_speed_kmh = 100,
      estimated_section_times = [(''A'', 10)]\<rparr>"

section \<open>Auxiliary notions for the proofs\<close>

text \<open>The second train is the first one with no less delay and nothing else changed.\<close>

definition only_delayed :: "Train \<Rightarrow> Train \<Rightarrow> bool" where
  "only_delayed w t \<longleftrightarrow>
     current_delay_minutes w \<le> current_delay_minutes t
     \<and> t = w\<lparr>current_delay_minutes := current_delay_minutes t\<rparr>"




text \<open>
  The conflict \<^verbatim>\<open>_create_conflict\<close> builds for two occupancy entries; a conflict list
  without two similar conflicts at different positions; and the condition under which
  the detector, at entry \<open>i\<close>, hands entry \<open>j\<close> to \<^verbatim>\<open>_create_conflict\<close>.
\<close>

definition entry_conflict :: "TrackSection \<Rightarrow> occupancy \<Rightarrow> occupancy \<Rightarrow> Conflict option" where
  "entry_conflict sec x y =
     create_conflict (fst x) (fst y) sec (fst (snd x)) (snd (snd x)) (fst (snd y)) (snd (snd y))"

definition no_similar_pair :: "Conflict list \<Rightarrow> bool" where
  "no_similar_pair cs \<longleftrightarrow>
     (\<forall>a b. a < b \<and> b < length cs \<longrightarrow> \<not> similar_conflict (cs ! a) (cs ! b))"

definition triggered :: "int \<Rightarrow> occupancy list \<Rightarrow> TrackSection \<Rightarrow> nat \<Rightarrow> nat \<Rightarrow> bool" where
  "triggered m tts sec i j \<longleftrightarrow>
     i < length tts \<and> j < length tts \<and> i \<noteq> j
     \<and> margin_overlap m (tts ! i) (tts ! j)
     \<and> capacity sec \<le> int (length (overlapping_trains m tts i))"

text \<open>
  The entries that the walk of one route appends for a section \<open>s\<close>, and the
  dictionary of \<^verbatim>\<open>_generate_section_schedules\<close> before its lists are sorted.
\<close>

fun route_entries :: "Train \<Rightarrow> int \<Rightarrow> string list \<Rightarrow> string \<Rightarrow> occupancy list" where
  "route_entries train current_time [] s = []"
| "route_entries train current_time (sid # rest) s =
     (let end_time = current_time
            + timedelta_minutes (dict_get (estimated_section_times train) sid 10)
      in (if sid = s then [(train, current_time, end_time)] else [])
           @ route_entries train end_time rest s)"

definition walk_all :: "Train list \<Rightarrow> (string \<times> occupancy list) list \<Rightarrow> (string \<times> occupancy list) list" where
  "walk_all trains d =
     fold (\<lambda>train. route_schedules train (get_actual_arrival train) (route train)) trains d"

section \<open>Severity of a conflict\<close>

lemma duration_gt_30: "(total_minutes d > 30) = (d > timedelta_minutes 30)"
  by (simp add: timedelta_minutes_def total_minutes_def field_simps)

lemma duration_gt_60: "(total_minutes d > 60) = (d > timedelta_minutes 60)"
  by (simp add: timedelta_minutes_def total_minutes_def field_simps)

lemma severity_bounds:
  "2 \<le> calculate_conflict_severity t1 t2 cs ce sec
   \<and> calculate_conflict_severity t1 t2 cs ce sec \<le> 5"
  by (simp add: calculate_conflict_severity_def Let_def)

text \<open>
  With the trains and the section fixed, the severity is a base value plus one for
  each duration threshold passed, capped at 5.
\<close>

lemma severity_shape:
  "\<exists>b. \<forall>s e. calculate_conflict_severity t1 t2 s e sec =
     min (b + (if timedelta_minutes 30 < e - s then 1 else 0)
            + (if timedelta_minutes 60 < e - s then 1 else 0)) 5"
proof -
  let ?p = "min (priority_value (priority t1)) (priority_value (priority t2))"
  let ?b = "2 + (if ?p = 1 then 2 else if ?p = 2 then 1 else 0)
              + (if section_type sec \<in> {JUNCTION, SINGLE_LINE} then 1 else (0::int))"
  have "\<forall>s e. calculate_conflict_severity t1 t2 s e sec =
     min (?b + (if timedelta_minutes 30 < e - s then 1 else 0)
            + (if timedelta_minutes 60 < e - s then 1 else 0)) 5"
    unfolding calculate_conflict_severity_def Let_def duration_gt_30 duration_gt_60
    by simp
  then show ?thesis by blast
qed

text \<open>
  C9, as the code has it. Passing the 30 minute threshold, and then the 60 minute
  threshold, raises the severity by exactly 1 unless it is already at the cap of 5,
  where it stays; the severity never exceeds 5.
\<close>

theorem severity_duration_steps:
  assumes "e1 - s1 \<le> timedelta_minutes 30"
    and "timedelta_minutes 30 < e2 - s2" and "e2 - s2 \<le> timedelta_minutes 60"
    and "timedelta_minutes 60 < e3 - s3"
  shows "calculate_conflict_severity t1 t2 s2 e2 sec
           = min 5 (calculate_conflict_severity t1 t2 s1 e1 sec + 1)
       \<and> calculate_conflict_severity t1 t2 s3 e3 sec
           = min 5 (calculate_conflict_severity t1 t2 s2 e2 sec + 1)
       \<and> calculate_conflict_severity t1 t2 s1 e1 sec \<le> 5
       \<and> calculate_conflict_severity t1 t2 s2 e2 sec \<le> 5
       \<and> calculate_conflict_severity t1 t2 s3 e3 sec \<le> 5"
proof -
  have lt: "timedelta_minutes 30 < timedelta_minutes 60"
    by (simp add: timedelta_minutes_def)
  obtain b where b: "\<And>s e. calculate_conflict_severity t1 t2 s e sec =
     min (b + (if timedelta_minutes 30 < e - s then 1 else 0)
            + (if timedelta_minutes 60 < e - s then 1 else 0)) 5"
    using severity_shape by blast
  have c1: "calculate_conflict_severity t1 t2 s1 e1 sec = min b 5"
    using assms(1) lt by (simp add: b)
  have c2: "calculate_conflict_severity t1 t2 s2 e2 sec = min (b + 1) 5"
    using assms(2,3) by (simp add: b)
  have c3: "calculate_conflict_severity t1 t2 s3 e3 sec = min (b + 2) 5"
    using assms(4) lt by (simp add: b)
  show ?thesis unfolding c1 c2 c3 by (simp add: min_def)
qed

text \<open>
  The sample express and local train on the junction, with overlaps of 20, 40 and 70
  minutes: severities 4, 5 and 5.
\<close>

theorem severity_duration_steps_witness:
  "timedelta_minutes 20 - 0 \<le> timedelta_minutes 30
   \<and> timedelta_minutes 30 < timedelta_minutes 40 - 0
   \<and> timedelta_minutes 40 - 0 \<le> timedelta_minutes 60
   \<and> timedelta_minutes 60 < timedelta_minutes 70 - 0
   \<and> calculate_conflict_severity (sample_T001 0) (sample_T002 0) 0 (timedelta_minutes 20) junction_x = 4
   \<and> calculate_conflict_severity (sample_T001 0) (sample_T002 0) 0 (timedelta_minutes 40) junction_x = 5
   \<and> calculate_conflict_severity (sample_T001 0) (sample_T002 0) 0 (timedelta_minutes 70) junction_x = 5"
proof -
  have h1: "timedelta_minutes 20 - 0 \<le> timedelta_minutes 30"
    and h2: "timedelta_minutes 30 < timedelta_minutes 40 - 0"
    and h3: "timedelta_minutes 40 - 0 \<le> timedelta_minutes 60"
    and h4: "timedelta_minutes 60 < timedelta_minutes 70 - 0"
    by (simp_all add: timedelta_minutes_def)
  have v: "calculate_conflict_severity (sample_T001 0) (sample_T002 0) 0 (timedelta_minutes 20) junction_x = 4"
    by code_simp
  from severity_duration_steps[OF h1 h2 h3 h4, of "sample_T001 0" "sample_T002 0" junction_x]
  show ?thesis using h1 h2 h3 h4 v by simp
qed

text \<open>
  C9 as stated fails: for a critical train on the junction the severity is 5 at an
  overlap of 10 minutes and still 5 at 40 minutes, so it does not increase at the
  threshold.
\<close>

theorem severity_not_strict_counterexample:
  "\<not> (calculate_conflict_severity critical_train (sample_T002 0) 0 (timedelta_minutes 10) junction_x + 1
        \<le> calculate_conflict_severity critical_train (sample_T002 0) 0 (timedelta_minutes 40) junction_x)"
  by code_simp

section \<open>Severity of the detected conflicts\<close>

lemma create_conflict_severity:
  assumes "create_conflict t1 t2 sec s1 e1 s2 e2 = Some c"
  shows "2 \<le> severity c \<and> severity c \<le> 5"
proof -
  from assms have "severity c = calculate_conflict_severity t1 t2 (max s1 s2) (min e1 e2) sec"
    by (auto simp: create_conflict_def Let_def split: if_splits)
  then show ?thesis by (simp only: severity_bounds)
qed

lemma add_conflict_severity:
  assumes "\<forall>c\<in>set cs. 2 \<le> severity c \<and> severity c \<le> 5"
  shows "\<forall>c\<in>set (add_conflict sec x y cs). 2 \<le> severity c \<and> severity c \<le> 5"
proof (cases "create_conflict (fst x) (fst y) sec (fst (snd x)) (snd (snd x))
                (fst (snd y)) (snd (snd y))")
  case None
  then show ?thesis using assms by (simp add: add_conflict_def)
next
  case (Some c)
  from create_conflict_severity[OF Some] assms show ?thesis
    by (simp add: add_conflict_def Some)
qed

lemma fold_add_conflict_severity:
  "\<forall>c\<in>set cs. 2 \<le> severity c \<and> severity c \<le> 5 \<Longrightarrow>
   \<forall>c\<in>set (fold (add_conflict sec x) ys cs). 2 \<le> severity c \<and> severity c \<le> 5"
proof (induction ys arbitrary: cs)
  case Nil
  then show ?case by simp
next
  case (Cons y ys)
  show ?case using Cons.IH[OF add_conflict_severity[OF Cons.prems]] by simp
qed

lemma detect_section_step_severity:
  assumes "\<forall>c\<in>set cs. 2 \<le> severity c \<and> severity c \<le> 5"
  shows "\<forall>c\<in>set (detect_section_step m tts sec i cs). 2 \<le> severity c \<and> severity c \<le> 5"
proof (cases "int (length (overlapping_trains m tts i)) \<ge> capacity sec")
  case True
  then show ?thesis using fold_add_conflict_severity[OF assms]
    by (simp add: detect_section_step_def)
next
  case False
  then show ?thesis using assms by (simp add: detect_section_step_def)
qed

lemma fold_detect_section_step_severity:
  "\<forall>c\<in>set cs. 2 \<le> severity c \<and> severity c \<le> 5 \<Longrightarrow>
   \<forall>c\<in>set (fold (detect_section_step m tts sec) is cs). 2 \<le> severity c \<and> severity c \<le> 5"
proof (induction "is" arbitrary: cs)
  case Nil
  then show ?case by simp
next
  case (Cons i "is")
  show ?case using Cons.IH[OF detect_section_step_severity[OF Cons.prems]] by simp
qed

lemma detect_section_conflicts_severity:
  "\<forall>c\<in>set (detect_section_conflicts m tts sec). 2 \<le> severity c \<and> severity c \<le> 5"
  unfolding detect_section_conflicts_def by (rule fold_detect_section_step_severity) simp

lemma detect_loop_severity:
  "detect_loop m sd ss cs = Inr cs' \<Longrightarrow> \<forall>c\<in>set cs. 2 \<le> severity c \<and> severity c \<le> 5 \<Longrightarrow>
   \<forall>c\<in>set cs'. 2 \<le> severity c \<and> severity c \<le> 5"
proof (induction m sd ss cs rule: detect_loop.induct)
  case (1 m sd conflicts)
  then show ?case by simp
next
  case (2 m sd sid train_times rest conflicts)
  from "2.prems"(1) obtain sec where s: "map_of sd sid = Some sec"
    and r: "detect_loop m sd rest (conflicts @ detect_section_conflicts m train_times sec) = Inr cs'"
    by (auto split: option.splits)
  have "\<forall>c\<in>set (conflicts @ detect_section_conflicts m train_times sec).
          2 \<le> severity c \<and> severity c \<le> 5"
    using "2.prems"(2) detect_section_conflicts_severity by auto
  from "2.IH"[OF s r this] show ?case .
qed

lemma sample_detect:
  "detect_conflicts 5 (create_sample_trains 0) create_sample_section = Inr [sample_conflict]"
  by code_simp

text \<open>
  C10. Every conflict that \<^verbatim>\<open>detect_conflicts\<close> returns has a severity from 2 to 5:
  the computation starts at 2, only adds, and caps at 5.
\<close>

theorem detect_conflicts_severity_range:
  assumes "detect_conflicts m trains sections = Inr conflicts" and "c \<in> set conflicts"
  shows "2 \<le> severity c \<and> severity c \<le> 5"
proof -
  have "\<forall>c\<in>set conflicts. 2 \<le> severity c \<and> severity c \<le> 5"
    by (rule detect_loop_severity[OF assms(1)[unfolded detect_conflicts_def]]) simp
  with assms(2) show ?thesis by blast
qed

theorem detect_conflicts_severity_range_witness:
  "detect_conflicts 5 (create_sample_trains 0) create_sample_section = Inr [sample_conflict]
   \<and> sample_conflict \<in> set [sample_conflict]
   \<and> 2 \<le> severity sample_conflict \<and> severity sample_conflict \<le> 5"
proof -
  have m: "sample_conflict \<in> set [sample_conflict]" by simp
  from detect_conflicts_severity_range[OF sample_detect m] sample_detect m
  show ?thesis by simp
qed

section \<open>Throughput and the conflict summary\<close>

text \<open>
  C5. For a single train whose scheduled departure equals its scheduled arrival the
  time span is zero and \<^verbatim>\<open>optimize_schedule\<close> ends in \<^verbatim>\<open>ZeroDivisionError\<close>: only
  the empty train list is guarded.
\<close>

theorem zero_span_raises:
  "optimize_schedule 5 [zero_span_train 0] create_sample_section = Inl ZeroDivisionError"
  by code_simp

text \<open>
  C6. The summary of the empty conflict list has no \<^verbatim>\<open>critical_conflicts\<close> entry,
  while the summary of a non-empty list has one.
\<close>

theorem empty_summary_lacks_critical:
  "critical_conflicts (get_conflict_summary []) = None
   \<and> critical_conflicts (get_conflict_summary [sample_conflict]) = Some 1"
  by (simp add: get_conflict_summary_def sample_conflict_def split: prod.splits)


section \<open>Optimization only adds delay\<close>

lemma calculate_required_delay_nonneg:
  "0 \<le> calculate_required_delay m train sid ps pe scheduled sec"
  by (simp add: calculate_required_delay_def)

lemma route_delay_mono:
  "route_delay m train scheduled sd rt ca tot = Inr tot' \<Longrightarrow> tot \<le> tot'"
proof (induction m train scheduled sd rt ca tot rule: route_delay.induct)
  case (1 m train scheduled_trains sd current_arrival total_delay_added)
  then show ?case by simp
next
  case (2 m train scheduled_trains sd sid rest current_arrival total_delay_added)
  from "2.prems" obtain sec where s: "map_of sd sid = Some sec"
    by (auto split: option.splits)
  let ?start = "current_arrival + timedelta_minutes total_delay_added"
  let ?dur = "dict_get (estimated_section_times train) sid 10"
  let ?end = "?start + timedelta_minutes ?dur"
  let ?req = "calculate_required_delay m train sid ?start ?end scheduled_trains sec"
  show ?case
  proof (cases "0 < ?req")
    case True
    with "2.prems" s have "route_delay m train scheduled_trains sd rest
        (get_actual_arrival train + timedelta_minutes (total_delay_added + ?req))
        (total_delay_added + ?req) = Inr tot'"
      by (simp add: Let_def)
    from "2.IH"(1)[OF s refl refl refl refl True this] True show ?thesis by simp
  next
    case False
    with "2.prems" s have "route_delay m train scheduled_trains sd rest current_arrival
        total_delay_added = Inr tot'"
      by (simp add: Let_def)
    from "2.IH"(2)[OF s refl refl refl refl False this] show ?thesis .
  qed
qed

lemma optimize_single_train_only_delayed:
  assumes "optimize_single_train m train scheduled sd = Inr t'"
  shows "only_delayed train t'"
proof -
  from assms obtain tot where r: "route_delay m train scheduled sd (route train) (get_actual_arrival train) 0 = Inr tot"
    and t': "t' = (if tot > 0 then train\<lparr>current_delay_minutes := current_delay_minutes train + tot\<rparr> else train)"
    by (auto simp: optimize_single_train_def split: sum.splits)
  from route_delay_mono[OF r] have "0 \<le> tot" .
  then show ?thesis by (simp add: t' only_delayed_def)
qed

lemma greedy_loop_only_delayed:
  "greedy_loop m sd ts opt = Inr res \<Longrightarrow> \<exists>new. res = opt @ new \<and> list_all2 only_delayed ts new"
proof (induction ts arbitrary: opt)
  case Nil
  then show ?case by simp
next
  case (Cons t ts)
  from Cons.prems obtain t' where ost: "optimize_single_train m t opt sd = Inr t'"
    and g: "greedy_loop m sd ts (opt @ [t']) = Inr res"
    by (auto split: sum.splits)
  from Cons.IH[OF g] obtain new where n: "res = (opt @ [t']) @ new" "list_all2 only_delayed ts new"
    by blast
  from optimize_single_train_only_delayed[OF ost] n
  have "res = opt @ (t' # new) \<and> list_all2 only_delayed (t # ts) (t' # new)" by simp
  then show ?case by blast
qed

lemma apply_greedy_only_delayed:
  assumes "apply_greedy_optimization m trains sections = Inr res"
  shows "list_all2 only_delayed trains res"
proof (cases trains)
  case Nil
  with assms show ?thesis by (simp add: apply_greedy_optimization_def)
next
  case (Cons t ts)
  with assms have "greedy_loop m (section_dict sections) ts [t] = Inr res"
    by (simp add: apply_greedy_optimization_def)
  from greedy_loop_only_delayed[OF this] obtain new where "res = [t] @ new" "list_all2 only_delayed ts new"
    by blast
  then show ?thesis using Cons by (simp add: only_delayed_def)
qed

lemma optimize_schedule_trains:
  assumes "optimize_schedule m trains sections = Inr res"
  shows "apply_greedy_optimization m (sort_trains trains) sections = Inr (optimized_trains res)"
  using assms by (auto simp: optimize_schedule_def Let_def split: sum.splits)

lemma sample_optimizes:
  "map_sum id (map current_delay_minutes \<circ> optimized_trains)
     (optimize_schedule 5 (create_sample_trains 0) create_sample_section) = Inr [0, 35, 28]"
  by code_simp

text \<open>
  C1. When \<^verbatim>\<open>optimize_schedule\<close> returns, its optimized trains are, position by
  position, the input trains in sorted order (a permutation of the input), each with
  a delay greater than or equal to its input delay and every other field unchanged.
\<close>

theorem optimize_never_reduces_delay:
  assumes "optimize_schedule m trains sections = Inr res"
  shows "mset (sort_trains trains) = mset trains
       \<and> list_all2 (\<lambda>w t. current_delay_minutes w \<le> current_delay_minutes t
                        \<and> t = w\<lparr>current_delay_minutes := current_delay_minutes t\<rparr>)
           (sort_trains trains) (optimized_trains res)"
proof -
  have "list_all2 only_delayed (sort_trains trains) (optimized_trains res)"
    by (rule apply_greedy_only_delayed[OF optimize_schedule_trains[OF assms]])
  then show ?thesis by (simp add: sort_trains_def only_delayed_def[abs_def])
qed

text \<open>On the sample data the three trains get the delays 0, 35 and 28.\<close>

theorem optimize_never_reduces_delay_witness:
  "case optimize_schedule 5 (create_sample_trains 0) create_sample_section of
     Inl e \<Rightarrow> False
   | Inr res \<Rightarrow>
       map current_delay_minutes (optimized_trains res) = [0, 35, 28]
       \<and> mset (sort_trains (create_sample_trains 0)) = mset (create_sample_trains 0)
       \<and> list_all2 (\<lambda>w t. current_delay_minutes w \<le> current_delay_minutes t
                        \<and> t = w\<lparr>current_delay_minutes := current_delay_minutes t\<rparr>)
           (sort_trains (create_sample_trains 0)) (optimized_trains res)"
proof -
  obtain res where r: "optimize_schedule 5 (create_sample_trains 0) create_sample_section = Inr res"
    using sample_optimizes
    by (cases "optimize_schedule 5 (create_sample_trains 0) create_sample_section") auto
  from sample_optimizes r
  have d: "map current_delay_minutes (optimized_trains res) = [0, 35, 28]" by simp
  from optimize_never_reduces_delay[OF r] d show ?thesis by (simp add: r)
qed

section \<open>The delay a train is given\<close>








text \<open>
  The float quotient is not always the exact one: one microsecond short of 315576005
  minutes the double is 315576005.0, where exact division would truncate to
  315576004.
\<close>

lemma float_minutes_not_exact:
  "py_int (float_minutes (315576005 * 60000000 - 1)) = 315576005
   \<and> (315576005 * 60000000 - 1) div 60000000 = (315576004 :: int)"
  by code_simp




section \<open>What-if analysis\<close>

lemma apply_delay_zero: "apply_delay tid 0 trains = trains"
  by (induction trains) simp_all

lemma apply_delay_unknown: "tid \<notin> train_id ` set trains \<Longrightarrow> apply_delay tid d trains = trains"
  by (induction trains) auto

lemma apply_priority_unknown:
  "tid \<notin> train_id ` set trains \<Longrightarrow> apply_priority tid p trains = (trains, None)"
  by (induction trains) auto

lemma round_to_double_zero: "round_to_double 0 = 0"
  by (simp add: round_to_double_def)

lemma analyze_delay_same:
  "apply_delay tid d trains = trains \<Longrightarrow>
   analyze_delay_scenario m trains sections tid d =
     (case optimize_schedule m trains sections of
        Inl e \<Rightarrow> Inl e
      | Inr r \<Rightarrow>
          Inr \<lparr>scenario_description = ''Train '' @ tid @ '' delayed by '' @ str_int d @ '' minutes'',
               original_metrics = metrics r, scenario_metrics = metrics r,
               impact = \<lparr>additional_conflicts = 0, additional_system_delay = 0,
                         punctuality_impact = 0\<rparr>\<rparr>)"
  by (simp add: analyze_delay_scenario_def round_to_double_zero split: sum.splits)

lemma delay_zero_run:
  "analyze_delay_scenario m trains sections tid 0 =
     (case optimize_schedule m trains sections of
        Inl e \<Rightarrow> Inl e
      | Inr r \<Rightarrow>
          Inr \<lparr>scenario_description = ''Train '' @ tid @ '' delayed by 0 minutes'',
               original_metrics = metrics r, scenario_metrics = metrics r,
               impact = \<lparr>additional_conflicts = 0, additional_system_delay = 0,
                         punctuality_impact = 0\<rparr>\<rparr>)"
proof -
  have "str_int 0 = ''0''" by (simp add: str_int_def)
  with analyze_delay_same[OF apply_delay_zero, of m trains sections tid] show ?thesis
    by (simp split: sum.splits)
qed

lemma lost_train_fails:
  "optimize_schedule 5 [lost_train 0] create_sample_section = Inl (KeyError ''SEC_999'')"
  by code_simp

text \<open>
  C8. Whenever \<^verbatim>\<open>optimize_schedule\<close> succeeds on the train list,
  \<^verbatim>\<open>analyze_delay_scenario\<close> with an additional delay of 0 returns a report whose two
  metrics are those of that run and whose three deltas are exactly zero, for every
  train id. When \<^verbatim>\<open>optimize_schedule\<close> fails on the train list (a route names a section
  that the section list does not have, or the time span is zero), the analysis fails
  with the same error.
\<close>

theorem analyze_delay_zero:
  "(optimize_schedule m trains sections = Inr r \<longrightarrow>
      analyze_delay_scenario m trains sections tid 0 =
        Inr \<lparr>scenario_description = ''Train '' @ tid @ '' delayed by 0 minutes'',
             original_metrics = metrics r, scenario_metrics = metrics r,
             impact = \<lparr>additional_conflicts = 0, additional_system_delay = 0,
                       punctuality_impact = 0\<rparr>\<rparr>)
   \<and> (optimize_schedule m trains sections = Inl e \<longrightarrow>
        analyze_delay_scenario m trains sections tid 0 = Inl e)"
  by (simp add: delay_zero_run)

text \<open>
  On the sample data the report for train \<^verbatim>\<open>T001\<close> has all deltas zero; for the train
  routed through an unknown section the analysis ends in the \<^verbatim>\<open>KeyError\<close> of the
  optimizer.
\<close>

theorem analyze_delay_zero_witness:
  "map_sum id impact
     (analyze_delay_scenario 5 (create_sample_trains 0) create_sample_section ''T001'' 0)
     = Inr \<lparr>additional_conflicts = 0, additional_system_delay = 0, punctuality_impact = 0\<rparr>
   \<and> analyze_delay_scenario 5 [lost_train 0] create_sample_section ''T200'' 0
     = Inl (KeyError ''SEC_999'')"
proof -
  obtain r where r: "optimize_schedule 5 (create_sample_trains 0) create_sample_section = Inr r"
    using sample_optimizes
    by (cases "optimize_schedule 5 (create_sample_trains 0) create_sample_section") auto
  from analyze_delay_zero[where m = 5 and trains = "create_sample_trains 0"
      and sections = create_sample_section and r = r and tid = "''T001''"] r
  have a: "map_sum id impact
     (analyze_delay_scenario 5 (create_sample_trains 0) create_sample_section ''T001'' 0)
     = Inr \<lparr>additional_conflicts = 0, additional_system_delay = 0, punctuality_impact = 0\<rparr>"
    by simp
  from analyze_delay_zero[where m = 5 and trains = "[lost_train 0]"
      and sections = create_sample_section and e = "KeyError ''SEC_999''" and tid = "''T200''"]
    lost_train_fails
  have "analyze_delay_scenario 5 [lost_train 0] create_sample_section ''T200'' 0
     = Inl (KeyError ''SEC_999'')"
    by simp
  with a show ?thesis by simp
qed

text \<open>
  C4, as the code has it. With a train id that no train has,
  \<^verbatim>\<open>analyze_delay_scenario\<close> fails only if \<^verbatim>\<open>optimize_schedule\<close> fails on the train
  list, and otherwise returns the report that compares the list with itself;
  \<^verbatim>\<open>analyze_priority_change\<close> always fails, with the error of \<^verbatim>\<open>optimize_schedule\<close>
  or else with \<^verbatim>\<open>AttributeError\<close>.
\<close>

theorem unknown_train_id:
  assumes "tid \<notin> train_id ` set trains"
  shows "analyze_delay_scenario m trains sections tid d =
     (case optimize_schedule m trains sections of
        Inl e \<Rightarrow> Inl e
      | Inr r \<Rightarrow>
          Inr \<lparr>scenario_description = ''Train '' @ tid @ '' delayed by '' @ str_int d @ '' minutes'',
               original_metrics = metrics r, scenario_metrics = metrics r,
               impact = \<lparr>additional_conflicts = 0, additional_system_delay = 0,
                         punctuality_impact = 0\<rparr>\<rparr>)
   \<and> analyze_priority_change m trains sections tid p =
     (case optimize_schedule m trains sections of
        Inl e \<Rightarrow> Inl e
      | Inr r \<Rightarrow> Inl AttributeError)"
proof -
  have "analyze_priority_change m trains sections tid p =
     (case optimize_schedule m trains sections of Inl e \<Rightarrow> Inl e | Inr r \<Rightarrow> Inl AttributeError)"
    by (simp add: analyze_priority_change_def apply_priority_unknown[OF assms] split: sum.splits)
  with analyze_delay_same[OF apply_delay_unknown[OF assms]] show ?thesis by simp
qed

text \<open>
  C4 as stated fails: on the sample data with the unknown id \<^verbatim>\<open>NOPE\<close> the delay
  analysis returns a report, with all deltas zero.
\<close>

theorem unknown_train_id_counterexample:
  "map_sum id impact (analyze_delay_scenario 5 (create_sample_trains 0) create_sample_section ''NOPE'' 30)
     = Inr \<lparr>additional_conflicts = 0, additional_system_delay = 0, punctuality_impact = 0\<rparr>"
  by code_simp

theorem unknown_train_id_witness:
  "''NOPE'' \<notin> train_id ` set (create_sample_trains 0)
   \<and> map_sum id impact
        (analyze_delay_scenario 5 (create_sample_trains 0) create_sample_section ''NOPE'' 30)
      = Inr \<lparr>additional_conflicts = 0, additional_system_delay = 0, punctuality_impact = 0\<rparr>
   \<and> analyze_priority_change 5 (create_sample_trains 0) create_sample_section ''NOPE'' LOW
      = Inl AttributeError"
proof -
  have h: "''NOPE'' \<notin> train_id ` set (create_sample_trains 0)"
    by (simp add: create_sample_trains_def sample_T001_def sample_T002_def sample_T003_def)
  obtain r where r: "optimize_schedule 5 (create_sample_trains 0) create_sample_section = Inr r"
    using sample_optimizes
    by (cases "optimize_schedule 5 (create_sample_trains 0) create_sample_section") auto
  from unknown_train_id[OF h, of 5 create_sample_section 30 LOW] h r
  show ?thesis by simp
qed



section \<open>The caller's train objects\<close>

text \<open>
  Copying a list of valid references extends the store, returns new references only,
  and the copies hold the values of the originals.
\<close>

lemma deepcopy_list_props:
  assumes "deepcopy_list h memo rs = (h', rs')"
    and "\<forall>r\<in>set rs. r < n" and "n \<le> length h"
    and "\<forall>(a, b)\<in>set memo. a < n \<and> n \<le> b \<and> b < length h \<and> h ! b = h ! a"
  shows "(\<exists>ext. h' = h @ ext) \<and> (\<forall>r'\<in>set rs'. n \<le> r' \<and> r' < length h')
         \<and> map (\<lambda>r. h' ! r) rs' = map (\<lambda>r. h ! r) rs"
  using assms
proof (induction rs arbitrary: h memo h' rs')
  case Nil
  then show ?case by simp
next
  case (Cons r rs)
  show ?case
  proof (cases "map_of memo r")
    case (Some r')
    with Cons.prems(1) obtain rs0 where d: "deepcopy_list h memo rs = (h', rs0)" and rs': "rs' = r' # rs0"
      by (auto split: prod.splits)
    from Cons.prems(2) have v: "\<forall>r\<in>set rs. r < n" by simp
    from Cons.IH[OF d v Cons.prems(3) Cons.prems(4)]
    obtain ext where ext: "h' = h @ ext" and fresh: "\<forall>r'\<in>set rs0. n \<le> r' \<and> r' < length h'"
      and vals: "map (\<lambda>r. h' ! r) rs0 = map (\<lambda>r. h ! r) rs"
      by blast
    from Some have "(r, r') \<in> set memo" by (rule map_of_SomeD)
    with Cons.prems(4) have m: "n \<le> r'" "r' < length h" "h ! r' = h ! r" by auto
    have "h' ! r' = h ! r" using m ext by (simp add: nth_append)
    with ext fresh vals m show ?thesis by (auto simp: rs')
  next
    case None
    let ?h1 = "h @ [h ! r]"
    let ?memo1 = "(r, length h) # memo"
    from None Cons.prems(1) obtain rs0 where d: "deepcopy_list ?h1 ?memo1 rs = (h', rs0)"
      and rs': "rs' = length h # rs0"
      by (auto split: prod.splits)
    from Cons.prems(2) have v: "\<forall>r\<in>set rs. r < n" and rn: "r < n" by simp_all
    have n1: "n \<le> length ?h1" using Cons.prems(3) by simp
    have memo1: "\<forall>(a, b)\<in>set ?memo1. a < n \<and> n \<le> b \<and> b < length ?h1 \<and> ?h1 ! b = ?h1 ! a"
      using Cons.prems(3,4) rn by (auto simp: nth_append)
    from Cons.IH[OF d v n1 memo1]
    obtain ext where ext: "h' = ?h1 @ ext" and fresh: "\<forall>r'\<in>set rs0. n \<le> r' \<and> r' < length h'"
      and vals: "map (\<lambda>r. h' ! r) rs0 = map (\<lambda>r. ?h1 ! r) rs"
      by blast
    have e: "h' = h @ ([h ! r] @ ext)" using ext by simp
    have v1: "map (\<lambda>r. ?h1 ! r) rs = map (\<lambda>r. h ! r) rs"
      using v Cons.prems(3) by (auto simp: nth_append)
    have new: "h' ! length h = h ! r" using ext by (simp add: nth_append)
    have "n \<le> length h \<and> length h < length h'" using Cons.prems(3) ext by simp
    with e fresh vals v1 new show ?thesis unfolding rs' by (simp del: append.simps)
  qed
qed

lemma optimize_single_train_h_props:
  assumes "optimize_single_train_h m h train scheduled sd = (h', res)"
    and "train < length h" and "\<forall>r\<in>set scheduled. r < length h"
  shows "(\<exists>x. h' = h @ [x]) \<and>
         (case res of
            Inl e \<Rightarrow> optimize_single_train m (h ! train) (map (\<lambda>r. h ! r) scheduled) sd = Inl e
          | Inr new \<Rightarrow> new = length h \<and>
              optimize_single_train m (h ! train) (map (\<lambda>r. h ! r) scheduled) sd = Inr (h' ! new))"
proof -
  let ?h1 = "h @ [h ! train]"
  have t: "?h1 ! train = h ! train" using assms(2) by (simp add: nth_append)
  have s: "map (\<lambda>r. ?h1 ! r) scheduled = map (\<lambda>r. h ! r) scheduled"
    using assms(3) by (simp add: nth_append)
  have n: "?h1 ! length h = h ! train" by simp
  show ?thesis
  proof (cases "route_delay m (h ! train) (map (\<lambda>r. h ! r) scheduled) sd (route (h ! train))
                  (get_actual_arrival (h ! train)) 0")
    case (Inl e)
    with assms(1) show ?thesis
      unfolding optimize_single_train_h_def optimize_single_train_def Let_def t s n by auto
  next
    case (Inr tot)
    with assms(1) show ?thesis
      unfolding optimize_single_train_h_def optimize_single_train_def Let_def t s n
      by (auto simp: list_update_append)
  qed
qed


lemma greedy_loop_h_props:
  assumes "greedy_loop_h m sd h ts opt = (h', res)"
    and "\<forall>r\<in>set ts. r < length h" and "\<forall>r\<in>set opt. r < length h"
  shows "(\<exists>ext. h' = h @ ext) \<and>
         (case res of
            Inl e \<Rightarrow> greedy_loop m sd (map (\<lambda>r. h ! r) ts) (map (\<lambda>r. h ! r) opt) = Inl e
          | Inr out \<Rightarrow>
              (\<exists>new. out = opt @ new \<and> (\<forall>r\<in>set new. length h \<le> r \<and> r < length h'))
              \<and> greedy_loop m sd (map (\<lambda>r. h ! r) ts) (map (\<lambda>r. h ! r) opt)
                  = Inr (map (\<lambda>r. h' ! r) out))"
  using assms
proof (induction ts arbitrary: h opt)
  case Nil
  then have "h' = h" "res = Inr opt" by auto
  then show ?case by simp
next
  case (Cons t ts)
  obtain h1 r1 where o: "optimize_single_train_h m h t opt sd = (h1, r1)"
    by (cases "optimize_single_train_h m h t opt sd") auto
  from Cons.prems(2) have tv: "t < length h" and tsv: "\<forall>r\<in>set ts. r < length h" by simp_all
  from optimize_single_train_h_props[OF o tv Cons.prems(3)]
  obtain x where h1: "h1 = h @ [x]"
    and r1: "case r1 of
            Inl e \<Rightarrow> optimize_single_train m (h ! t) (map (\<lambda>r. h ! r) opt) sd = Inl e
          | Inr new \<Rightarrow> new = length h \<and>
              optimize_single_train m (h ! t) (map (\<lambda>r. h ! r) opt) sd = Inr (h1 ! new)"
    by blast
  show ?case
  proof (cases r1)
    case (Inl e)
    with Cons.prems(1) o have "h' = h1" "res = Inl e" by simp_all
    with r1 Inl h1 show ?thesis by simp
  next
    case (Inr new)
    with r1 have new: "new = length h"
      and p: "optimize_single_train m (h ! t) (map (\<lambda>r. h ! r) opt) sd = Inr (h1 ! new)"
      by simp_all
    from Cons.prems(1) o Inr
    have g: "greedy_loop_h m sd h1 ts (opt @ [new]) = (h', res)" by simp
    have v1: "\<forall>r\<in>set ts. r < length h1" using tsv h1 by auto
    have v2: "\<forall>r\<in>set (opt @ [new]). r < length h1" using Cons.prems(3) h1 new by auto
    from Cons.IH[OF g v1 v2]
    obtain ext where ext: "h' = h1 @ ext"
      and r: "case res of
            Inl e \<Rightarrow> greedy_loop m sd (map (\<lambda>r. h1 ! r) ts) (map (\<lambda>r. h1 ! r) (opt @ [new])) = Inl e
          | Inr out \<Rightarrow>
              (\<exists>new'. out = (opt @ [new]) @ new' \<and> (\<forall>r\<in>set new'. length h1 \<le> r \<and> r < length h'))
              \<and> greedy_loop m sd (map (\<lambda>r. h1 ! r) ts) (map (\<lambda>r. h1 ! r) (opt @ [new]))
                  = Inr (map (\<lambda>r. h' ! r) out)"
      by blast
    have m1: "map (\<lambda>r. h1 ! r) ts = map (\<lambda>r. h ! r) ts"
      using tsv h1 by (auto simp: nth_append)
    have m2: "map (\<lambda>r. h1 ! r) (opt @ [new]) = map (\<lambda>r. h ! r) opt @ [h1 ! new]"
      using Cons.prems(3) h1 by (auto simp: nth_append)
    have pure: "greedy_loop m sd (map (\<lambda>r. h ! r) (t # ts)) (map (\<lambda>r. h ! r) opt)
                  = greedy_loop m sd (map (\<lambda>r. h1 ! r) ts) (map (\<lambda>r. h1 ! r) (opt @ [new]))"
      unfolding m1 m2 by (simp add: p)
    have e: "h' = h @ ([x] @ ext)" using ext h1 by simp
    have lh: "length h < length h'" using e by simp
    show ?thesis
    proof (cases res)
      case (Inl e')
      with r pure e show ?thesis by (simp del: append.simps)
    next
      case (Inr out)
      with r obtain new' where out: "out = (opt @ [new]) @ new'"
        and f: "\<forall>r\<in>set new'. length h1 \<le> r \<and> r < length h'"
        and gp: "greedy_loop m sd (map (\<lambda>r. h1 ! r) ts) (map (\<lambda>r. h1 ! r) (opt @ [new]))
                  = Inr (map (\<lambda>r. h' ! r) out)"
        by auto
      have "out = opt @ (new # new')" using out by simp
      moreover have "\<forall>r\<in>set (new # new'). length h \<le> r \<and> r < length h'"
        using f new lh h1 by auto
      ultimately have "\<exists>n. out = opt @ n \<and> (\<forall>r\<in>set n. length h \<le> r \<and> r < length h')"
        by blast
      with Inr e gp pure show ?thesis by (simp del: append.simps)
    qed
  qed
qed

lemma apply_greedy_optimization_h_props:
  assumes "apply_greedy_optimization_h m h trains sections = (h', res)"
    and "\<forall>r\<in>set trains. r < length h"
  shows "(\<exists>ext. h' = h @ ext) \<and>
         (case res of
            Inl e \<Rightarrow> apply_greedy_optimization m (map (\<lambda>r. h ! r) trains) sections = Inl e
          | Inr out \<Rightarrow>
              set out \<subseteq> set trains \<union> {r. length h \<le> r \<and> r < length h'}
              \<and> apply_greedy_optimization m (map (\<lambda>r. h ! r) trains) sections
                  = Inr (map (\<lambda>r. h' ! r) out))"
proof (cases trains)
  case Nil
  with assms(1) have "h' = h" "res = Inr []"
    by (auto simp: apply_greedy_optimization_h_def)
  then show ?thesis using Nil by (simp add: apply_greedy_optimization_def)
next
  case (Cons t ts)
  with assms(1) have g: "greedy_loop_h m (section_dict sections) h ts [t] = (h', res)"
    by (simp add: apply_greedy_optimization_h_def)
  from assms(2) Cons have v1: "\<forall>r\<in>set ts. r < length h" and v2: "\<forall>r\<in>set [t]. r < length h"
    by simp_all
  from greedy_loop_h_props[OF g v1 v2] show ?thesis
    unfolding Cons apply_greedy_optimization_def
    by (cases res) auto
qed

lemma insort_key_map:
  "map g (insort_key (\<lambda>x. f (g x)) a xs) = insort_key f (g a) (map g xs)"
  by (induction xs) simp_all

lemma sort_key_map: "map g (sort_key (\<lambda>x. f (g x)) xs) = sort_key f (map g xs)"
  by (induction xs) (simp_all add: insort_key_map)


lemma optimize_schedule_h_props:
  assumes valid: "\<forall>r\<in>set trains. r < length h"
    and run: "optimize_schedule_h m h trains sections = (h', res)"
  shows "(\<exists>ext. h' = h @ ext)
       \<and> map_sum id snd res = optimize_schedule m (map (\<lambda>r. h ! r) trains) sections
       \<and> (case res of
             Inl e \<Rightarrow> True
           | Inr (out, r) \<Rightarrow>
               (\<forall>x\<in>set out. length h \<le> x \<and> x < length h')
               \<and> optimized_trains r = map (\<lambda>x. h' ! x) out)"
proof -
  obtain h1 working where d: "deepcopy_list h [] trains = (h1, working)"
    by (cases "deepcopy_list h [] trains") auto
  have "\<forall>(a, b)\<in>set []. a < length h \<and> length h \<le> b \<and> b < length h \<and> h ! b = h ! a"
    by simp
  from deepcopy_list_props[OF d valid order_refl this]
  obtain ext1 where h1: "h1 = h @ ext1"
    and fresh1: "\<forall>r'\<in>set working. length h \<le> r' \<and> r' < length h1"
    and vals1: "map (\<lambda>r. h1 ! r) working = map (\<lambda>r. h ! r) trains"
    by blast
  let ?ws = "sort_key (\<lambda>r. (priority_value (priority (h1 ! r)), get_actual_arrival (h1 ! r))) working"
  have ws_set: "set ?ws = set working" by simp
  have ws_valid: "\<forall>r\<in>set ?ws. r < length h1" using fresh1 by simp
  have "map (\<lambda>r. h1 ! r) ?ws
          = sort_key (\<lambda>t. (priority_value (priority t), get_actual_arrival t)) (map (\<lambda>r. h1 ! r) working)"
    by (rule sort_key_map[of "\<lambda>r. h1 ! r" "\<lambda>t. (priority_value (priority t), get_actual_arrival t)"])
  then have ws_vals: "map (\<lambda>r. h1 ! r) ?ws = sort_trains (map (\<lambda>r. h ! r) trains)"
    by (simp add: sort_trains_def vals1)
  obtain h2 r2 where g: "apply_greedy_optimization_h m h1 ?ws sections = (h2, r2)"
    by (cases "apply_greedy_optimization_h m h1 ?ws sections") auto
  from apply_greedy_optimization_h_props[OF g ws_valid]
  obtain ext2 where h2: "h2 = h1 @ ext2"
    and r2: "case r2 of
            Inl e \<Rightarrow> apply_greedy_optimization m (map (\<lambda>r. h1 ! r) ?ws) sections = Inl e
          | Inr out \<Rightarrow>
              set out \<subseteq> set ?ws \<union> {r. length h1 \<le> r \<and> r < length h2}
              \<and> apply_greedy_optimization m (map (\<lambda>r. h1 ! r) ?ws) sections
                  = Inr (map (\<lambda>r. h2 ! r) out)"
    by blast
  have e: "h2 = h @ (ext1 @ ext2)" using h1 h2 by simp
  have orig: "map (\<lambda>r. h2 ! r) trains = map (\<lambda>r. h ! r) trains"
    using valid e by (auto simp: nth_append)
  have run': "(h', res) =
      (case r2 of
         Inl e \<Rightarrow> (h2, Inl e)
       | Inr optimized_ts \<Rightarrow>
         (case generate_optimized_schedule (map (\<lambda>r. h2 ! r) optimized_ts) sections of
             Inl e \<Rightarrow> (h2, Inl e)
           | Inr sched \<Rightarrow>
         (case calculate_metrics m (map (\<lambda>r. h2 ! r) trains) (map (\<lambda>r. h2 ! r) optimized_ts)
                 sections of
             Inl e \<Rightarrow> (h2, Inl e)
           | Inr mets \<Rightarrow>
         (case detect_conflicts m (map (\<lambda>r. h2 ! r) optimized_ts) sections of
             Inl e \<Rightarrow> (h2, Inl e)
           | Inr remaining \<Rightarrow>
               (h2, Inr (optimized_ts,
                         \<lparr>optimized_trains = map (\<lambda>r. h2 ! r) optimized_ts, schedule = sched,
                          metrics = mets, conflicts_remaining = remaining\<rparr>))))))"
    using run unfolding optimize_schedule_h_def d by (simp add: Let_def g split: sum.splits)
  show ?thesis
  proof (cases r2)
    case (Inl e')
    with run' have "h' = h2" "res = Inl e'" by simp_all
    moreover from r2 Inl have "optimize_schedule m (map (\<lambda>r. h ! r) trains) sections = Inl e'"
      by (simp add: optimize_schedule_def ws_vals)
    ultimately show ?thesis using e by (simp del: append.simps)
  next
    case (Inr out)
    with r2 have sub: "set out \<subseteq> set ?ws \<union> {r. length h1 \<le> r \<and> r < length h2}"
      and pure: "apply_greedy_optimization m (sort_trains (map (\<lambda>r. h ! r) trains)) sections
                  = Inr (map (\<lambda>r. h2 ! r) out)"
      by (simp_all add: ws_vals)
    have fresh: "\<forall>x\<in>set out. length h \<le> x \<and> x < length h2"
    proof
      fix x assume "x \<in> set out"
      with sub have "x \<in> set working \<or> (length h1 \<le> x \<and> x < length h2)" by auto
      then show "length h \<le> x \<and> x < length h2"
        using fresh1 h1 h2 by auto
    qed
    have h'2: "h' = h2" using run' Inr by (auto split: sum.splits)
    have res: "res =
         (case generate_optimized_schedule (map (\<lambda>r. h2 ! r) out) sections of
             Inl e \<Rightarrow> Inl e
           | Inr sched \<Rightarrow>
         (case calculate_metrics m (map (\<lambda>r. h ! r) trains) (map (\<lambda>r. h2 ! r) out) sections of
             Inl e \<Rightarrow> Inl e
           | Inr mets \<Rightarrow>
         (case detect_conflicts m (map (\<lambda>r. h2 ! r) out) sections of
             Inl e \<Rightarrow> Inl e
           | Inr remaining \<Rightarrow>
               Inr (out,
                    \<lparr>optimized_trains = map (\<lambda>r. h2 ! r) out, schedule = sched,
                     metrics = mets, conflicts_remaining = remaining\<rparr>))))"
      using run'[unfolded orig] Inr by (auto split: sum.splits)
    have link: "map_sum id snd res = optimize_schedule m (map (\<lambda>r. h ! r) trains) sections"
      unfolding res optimize_schedule_def Let_def pure
      by (simp split: sum.splits)
    have shape: "case res of
             Inl e \<Rightarrow> True
           | Inr (out', r) \<Rightarrow>
               (\<forall>x\<in>set out'. length h \<le> x \<and> x < length h')
               \<and> optimized_trains r = map (\<lambda>x. h' ! x) out'"
      unfolding res h'2 using fresh by (simp split: sum.splits)
    from e h'2 link shape show ?thesis by (simp del: append.simps)
  qed
qed

text \<open>
  C7. On a store \<open>h\<close> in which the caller's references are valid,
  \<^verbatim>\<open>optimize_schedule\<close> leaves every object of \<open>h\<close> as it was (the new store is \<open>h\<close>
  with objects added at the end), so the caller's trains keep all their fields; the
  references in \<^verbatim>\<open>optimized_trains\<close> are all new, none of them is one of the caller's;
  and the result is the one computed above from the values of the caller's trains.
\<close>

theorem optimize_schedule_frame:
  assumes "\<forall>r\<in>set trains. r < length h"
    and "optimize_schedule_h m h trains sections = (h', res)"
  shows "take (length h) h' = h
       \<and> map (\<lambda>r. h' ! r) trains = map (\<lambda>r. h ! r) trains
       \<and> map_sum id snd res = optimize_schedule m (map (\<lambda>r. h ! r) trains) sections
       \<and> (case res of
             Inl e \<Rightarrow> True
           | Inr (out, r) \<Rightarrow>
               set out \<inter> set trains = {}
               \<and> (\<forall>x\<in>set out. length h \<le> x \<and> x < length h')
               \<and> optimized_trains r = map (\<lambda>x. h' ! x) out)"
proof -
  from optimize_schedule_h_props[OF assms]
  obtain ext where ext: "h' = h @ ext"
    and link: "map_sum id snd res = optimize_schedule m (map (\<lambda>r. h ! r) trains) sections"
    and shape: "case res of
             Inl e \<Rightarrow> True
           | Inr (out, r) \<Rightarrow>
               (\<forall>x\<in>set out. length h \<le> x \<and> x < length h')
               \<and> optimized_trains r = map (\<lambda>x. h' ! x) out"
    by blast
  have t: "take (length h) h' = h" using ext by simp
  have v: "map (\<lambda>r. h' ! r) trains = map (\<lambda>r. h ! r) trains"
    using assms(1) ext by (auto simp: nth_append)
  have d: "case res of
             Inl e \<Rightarrow> True
           | Inr (out, r) \<Rightarrow>
               set out \<inter> set trains = {}
               \<and> (\<forall>x\<in>set out. length h \<le> x \<and> x < length h')
               \<and> optimized_trains r = map (\<lambda>x. h' ! x) out"
  proof (cases res)
    case (Inl e)
    then show ?thesis by simp
  next
    case (Inr p)
    obtain out r where p: "p = (out, r)" by (cases p)
    from shape Inr p have f: "\<forall>x\<in>set out. length h \<le> x \<and> x < length h'"
      and o: "optimized_trains r = map (\<lambda>x. h' ! x) out" by simp_all
    from f assms(1) have "set out \<inter> set trains = {}" by fastforce
    with f o Inr p show ?thesis by simp
  qed
  from t v link d show ?thesis by blast
qed

lemma sample_store_run:
  "map_prod length (map_sum id fst)
     (optimize_schedule_h 5 (create_sample_trains 0) [0, 1, 2] create_sample_section)
   = (8, Inr [3, 6, 7])"
  by code_simp

text \<open>
  The three sample trains at references 0, 1 and 2: the call adds five objects and
  returns the references 3, 6 and 7.
\<close>

theorem optimize_schedule_frame_witness:
  "length (create_sample_trains 0) = 3
   \<and> map_prod length (map_sum id fst)
       (optimize_schedule_h 5 (create_sample_trains 0) [0, 1, 2] create_sample_section)
     = (8, Inr [3, 6, 7])
   \<and> take 3 (fst (optimize_schedule_h 5 (create_sample_trains 0) [0, 1, 2] create_sample_section))
     = create_sample_trains 0"
proof -
  have l: "length (create_sample_trains 0) = 3" by (simp add: create_sample_trains_def)
  then have v: "\<forall>r\<in>set [0, 1, 2]. r < length (create_sample_trains 0)" by simp
  obtain h' res where
    run: "optimize_schedule_h 5 (create_sample_trains 0) [0, 1, 2] create_sample_section = (h', res)"
    by (cases "optimize_schedule_h 5 (create_sample_trains 0) [0, 1, 2] create_sample_section")
  from optimize_schedule_frame[OF v run] l
  have "take 3 h' = create_sample_trains 0" by simp
  with run l sample_store_run show ?thesis by simp
qed


section \<open>Conflict detection in one section\<close>

subsection \<open>No two similar conflicts\<close>

lemma conflict_exists_iff: "conflict_exists cs c \<longleftrightarrow> (\<exists>c'\<in>set cs. similar_conflict c' c)"
  by (simp add: conflict_exists_def list_ex_iff)

lemma similar_conflict_refl: "similar_conflict c c"
  by (simp add: similar_conflict_def)

lemma add_conflict_cases:
  "add_conflict sec x y cs = cs \<and> (\<forall>c. entry_conflict sec x y = Some c \<longrightarrow> conflict_exists cs c)
   \<or> (\<exists>c. entry_conflict sec x y = Some c \<and> \<not> conflict_exists cs c
            \<and> add_conflict sec x y cs = cs @ [c])"
  by (cases "entry_conflict sec x y") (auto simp: add_conflict_def entry_conflict_def)

lemma no_similar_pair_snoc:
  assumes "no_similar_pair cs" and "\<not> conflict_exists cs c"
  shows "no_similar_pair (cs @ [c])"
  unfolding no_similar_pair_def
proof (intro allI impI)
  fix a b assume ab: "a < b \<and> b < length (cs @ [c])"
  show "\<not> similar_conflict ((cs @ [c]) ! a) ((cs @ [c]) ! b)"
  proof (cases "b < length cs")
    case True
    with ab assms(1) show ?thesis by (simp add: no_similar_pair_def nth_append)
  next
    case False
    with ab have b: "b = length cs" and a: "a < length cs" by simp_all
    from a have "cs ! a \<in> set cs" by simp
    with assms(2) have "\<not> similar_conflict (cs ! a) c" by (auto simp: conflict_exists_iff)
    with a b show ?thesis by (simp add: nth_append)
  qed
qed

lemma add_conflict_no_similar_pair:
  "no_similar_pair cs \<Longrightarrow> no_similar_pair (add_conflict sec x y cs)"
  using add_conflict_cases[of sec x y cs] no_similar_pair_snoc by auto

lemma fold_add_conflict_no_similar_pair:
  "no_similar_pair cs \<Longrightarrow> no_similar_pair (fold (add_conflict sec x) ys cs)"
  by (induction ys arbitrary: cs) (simp_all add: add_conflict_no_similar_pair)

lemma detect_section_step_no_similar_pair:
  "no_similar_pair cs \<Longrightarrow> no_similar_pair (detect_section_step m tts sec i cs)"
  by (simp add: detect_section_step_def Let_def fold_add_conflict_no_similar_pair)

lemma fold_detect_section_step_no_similar_pair:
  "no_similar_pair cs \<Longrightarrow> no_similar_pair (fold (detect_section_step m tts sec) is cs)"
  by (induction "is" arbitrary: cs) (simp_all add: detect_section_step_no_similar_pair)

lemma detect_section_conflicts_no_similar_pair:
  "no_similar_pair (detect_section_conflicts m tts sec)"
  unfolding detect_section_conflicts_def
  by (rule fold_detect_section_step_no_similar_pair) (simp add: no_similar_pair_def)

subsection \<open>The conflict list only grows\<close>

lemma add_conflict_grows: "set cs \<subseteq> set (add_conflict sec x y cs)"
  using add_conflict_cases[of sec x y cs] by auto

lemma fold_add_conflict_grows: "set cs \<subseteq> set (fold (add_conflict sec x) ys cs)"
proof (induction ys arbitrary: cs)
  case Nil
  then show ?case by simp
next
  case (Cons y ys)
  have "set cs \<subseteq> set (add_conflict sec x y cs)" by (rule add_conflict_grows)
  also have "\<dots> \<subseteq> set (fold (add_conflict sec x) ys (add_conflict sec x y cs))" by (rule Cons.IH)
  finally show ?case by simp
qed

lemma detect_section_step_grows: "set cs \<subseteq> set (detect_section_step m tts sec i cs)"
  by (simp add: detect_section_step_def Let_def fold_add_conflict_grows)

lemma fold_detect_section_step_grows:
  "set cs \<subseteq> set (fold (detect_section_step m tts sec) is cs)"
proof (induction "is" arbitrary: cs)
  case Nil
  then show ?case by simp
next
  case (Cons i "is")
  have "set cs \<subseteq> set (detect_section_step m tts sec i cs)" by (rule detect_section_step_grows)
  also have "\<dots> \<subseteq> set (fold (detect_section_step m tts sec) is (detect_section_step m tts sec i cs))"
    by (rule Cons.IH)
  finally show ?case by simp
qed

subsection \<open>Where a reported conflict comes from\<close>

lemma overlapping_trains_set:
  "y \<in> set (overlapping_trains m tts i) \<longleftrightarrow>
     (\<exists>j<length tts. i \<noteq> j \<and> margin_overlap m (tts ! i) (tts ! j) \<and> y = tts ! j)"
  by (auto simp: overlapping_trains_def)

lemma fold_add_conflict_provenance:
  "c \<in> set (fold (add_conflict sec x) ys cs) \<Longrightarrow>
   c \<in> set cs \<or> (\<exists>y\<in>set ys. entry_conflict sec x y = Some c)"
proof (induction ys arbitrary: cs)
  case Nil
  then show ?case by simp
next
  case (Cons y ys)
  from Cons.prems have "c \<in> set (fold (add_conflict sec x) ys (add_conflict sec x y cs))" by simp
  from Cons.IH[OF this]
  have "c \<in> set (add_conflict sec x y cs) \<or> (\<exists>y\<in>set ys. entry_conflict sec x y = Some c)" .
  moreover have "c \<in> set (add_conflict sec x y cs) \<Longrightarrow> c \<in> set cs \<or> entry_conflict sec x y = Some c"
    using add_conflict_cases[of sec x y cs] by auto
  ultimately show ?case by auto
qed

lemma detect_section_step_provenance:
  assumes "c \<in> set (detect_section_step m tts sec i cs)" and "i < length tts"
  shows "c \<in> set cs \<or> (\<exists>j. triggered m tts sec i j \<and> entry_conflict sec (tts ! i) (tts ! j) = Some c)"
proof (cases "capacity sec \<le> int (length (overlapping_trains m tts i))")
  case False
  with assms(1) show ?thesis by (simp add: detect_section_step_def)
next
  case True
  with assms(1) have "c \<in> set (fold (add_conflict sec (tts ! i)) (overlapping_trains m tts i) cs)"
    by (simp add: detect_section_step_def)
  from fold_add_conflict_provenance[OF this]
  show ?thesis
  proof
    assume "c \<in> set cs" then show ?thesis ..
  next
    assume "\<exists>y\<in>set (overlapping_trains m tts i). entry_conflict sec (tts ! i) y = Some c"
    then obtain j where "j < length tts" "i \<noteq> j" "margin_overlap m (tts ! i) (tts ! j)"
      "entry_conflict sec (tts ! i) (tts ! j) = Some c"
      by (auto simp: overlapping_trains_set)
    with True assms(2) have "triggered m tts sec i j \<and> entry_conflict sec (tts ! i) (tts ! j) = Some c"
      by (simp add: triggered_def)
    then show ?thesis by blast
  qed
qed

lemma fold_detect_section_step_provenance:
  "c \<in> set (fold (detect_section_step m tts sec) is cs) \<Longrightarrow> \<forall>i\<in>set is. i < length tts \<Longrightarrow>
   c \<in> set cs \<or> (\<exists>i j. triggered m tts sec i j \<and> entry_conflict sec (tts ! i) (tts ! j) = Some c)"
proof (induction "is" arbitrary: cs)
  case Nil
  then show ?case by simp
next
  case (Cons i "is")
  from Cons.prems(1)
  have "c \<in> set (fold (detect_section_step m tts sec) is (detect_section_step m tts sec i cs))"
    by simp
  from Cons.IH[OF this] Cons.prems(2)
  have "c \<in> set (detect_section_step m tts sec i cs)
        \<or> (\<exists>i j. triggered m tts sec i j \<and> entry_conflict sec (tts ! i) (tts ! j) = Some c)"
    by simp
  then show ?case
  proof
    assume "c \<in> set (detect_section_step m tts sec i cs)"
    from detect_section_step_provenance[OF this] Cons.prems(2) show ?thesis by auto
  next
    assume "\<exists>i j. triggered m tts sec i j \<and> entry_conflict sec (tts ! i) (tts ! j) = Some c"
    then show ?thesis ..
  qed
qed

lemma detect_section_conflicts_provenance:
  assumes "c \<in> set (detect_section_conflicts m tts sec)"
  shows "\<exists>i j. triggered m tts sec i j \<and> entry_conflict sec (tts ! i) (tts ! j) = Some c"
  using fold_detect_section_step_provenance[OF assms[unfolded detect_section_conflicts_def]]
  by simp

subsection \<open>Every triggered pair is reported\<close>

lemma conflict_exists_mono: "conflict_exists cs c \<Longrightarrow> set cs \<subseteq> set cs' \<Longrightarrow> conflict_exists cs' c"
  by (auto simp: conflict_exists_iff)

lemma add_conflict_reported:
  "entry_conflict sec x y = Some c \<Longrightarrow> conflict_exists (add_conflict sec x y cs) c"
  using add_conflict_cases[of sec x y cs] similar_conflict_refl
  by (auto simp: conflict_exists_iff)

lemma fold_add_conflict_reported:
  "y \<in> set ys \<Longrightarrow> entry_conflict sec x y = Some c \<Longrightarrow>
   conflict_exists (fold (add_conflict sec x) ys cs) c"
proof (induction ys arbitrary: cs)
  case Nil
  then show ?case by simp
next
  case (Cons z zs)
  show ?case
  proof (cases "y = z")
    case True
    from add_conflict_reported[OF Cons.prems(2)]
    have "conflict_exists (add_conflict sec x y cs) c" .
    from conflict_exists_mono[OF this fold_add_conflict_grows] True show ?thesis by simp
  next
    case False
    with Cons.prems(1) have "y \<in> set zs" by simp
    from Cons.IH[OF this Cons.prems(2)] show ?thesis by simp
  qed
qed

lemma detect_section_step_reported:
  assumes "triggered m tts sec i j" and "entry_conflict sec (tts ! i) (tts ! j) = Some c"
  shows "conflict_exists (detect_section_step m tts sec i cs) c"
proof -
  from assms(1) have "tts ! j \<in> set (overlapping_trains m tts i)"
    and cap: "capacity sec \<le> int (length (overlapping_trains m tts i))"
    by (auto simp: triggered_def overlapping_trains_set)
  from fold_add_conflict_reported[OF this(1) assms(2)] cap show ?thesis
    by (simp add: detect_section_step_def)
qed

lemma fold_detect_section_step_reported:
  "i \<in> set is \<Longrightarrow> triggered m tts sec i j \<Longrightarrow> entry_conflict sec (tts ! i) (tts ! j) = Some c \<Longrightarrow>
   conflict_exists (fold (detect_section_step m tts sec) is cs) c"
proof (induction "is" arbitrary: cs)
  case Nil
  then show ?case by simp
next
  case (Cons k ks)
  show ?case
  proof (cases "i = k")
    case True
    from detect_section_step_reported[OF Cons.prems(2,3)]
    have "conflict_exists (detect_section_step m tts sec i cs) c" .
    from conflict_exists_mono[OF this fold_detect_section_step_grows] True show ?thesis by simp
  next
    case False
    with Cons.prems(1) have "i \<in> set ks" by simp
    from Cons.IH[OF this Cons.prems(2,3)] show ?thesis by simp
  qed
qed

lemma detect_section_conflicts_reported:
  assumes "triggered m tts sec i j" and "entry_conflict sec (tts ! i) (tts ! j) = Some c"
  shows "conflict_exists (detect_section_conflicts m tts sec) c"
proof -
  from assms(1) have "i \<in> set [0..<length tts]" by (simp add: triggered_def)
  from fold_detect_section_step_reported[OF this assms] show ?thesis
    by (simp add: detect_section_conflicts_def)
qed

subsection \<open>Two entries in a section of capacity 1\<close>

lemma margin_overlap_of_overlap:
  assumes "0 \<le> m" and "max (fst (snd x)) (fst (snd y)) < min (snd (snd x)) (snd (snd y))"
  shows "margin_overlap m x y"
proof -
  have "0 \<le> timedelta_minutes m" using assms(1) by (simp add: timedelta_minutes_def)
  with assms(2) show ?thesis by (simp add: margin_overlap_def Let_def)
qed

lemma two_entries:
  assumes "capacity sec = 1" and "margin_overlap m x y" and "margin_overlap m y x"
    and "max (fst (snd x)) (fst (snd y)) < min (snd (snd x)) (snd (snd y))"
  shows "detect_section_conflicts m [x, y] sec =
           [\<lparr>train1 = fst x, train2 = fst y, conflict_section_id = section_id sec,
             conflict_start_time = max (fst (snd x)) (fst (snd y)),
             conflict_end_time = min (snd (snd x)) (snd (snd y)),
             severity = calculate_conflict_severity (fst x) (fst y)
                          (max (fst (snd x)) (fst (snd y))) (min (snd (snd x)) (snd (snd y))) sec\<rparr>]"
proof -
  let ?c = "\<lparr>train1 = fst x, train2 = fst y, conflict_section_id = section_id sec,
             conflict_start_time = max (fst (snd x)) (fst (snd y)),
             conflict_end_time = min (snd (snd x)) (snd (snd y)),
             severity = calculate_conflict_severity (fst x) (fst y)
                          (max (fst (snd x)) (fst (snd y))) (min (snd (snd x)) (snd (snd y))) sec\<rparr>"
  have upt: "[0..<length [x, y]] = [0, Suc 0]" by (simp add: upt_rec)
  have o0: "overlapping_trains m [x, y] 0 = [y]"
    using assms(2) by (simp add: overlapping_trains_def upt_rec)
  have o1: "overlapping_trains m [x, y] (Suc 0) = [x]"
    using assms(3) by (simp add: overlapping_trains_def upt_rec)
  have n1: "\<not> min (snd (snd x)) (snd (snd y)) \<le> max (fst (snd x)) (fst (snd y))"
    using assms(4) by (simp only: not_le)
  have cxy: "entry_conflict sec x y = Some ?c"
    by (simp add: entry_conflict_def create_conflict_def Let_def n1)
  have n2: "\<not> min (snd (snd y)) (snd (snd x)) \<le> max (fst (snd y)) (fst (snd x))"
    unfolding max.commute[of "fst (snd y)"] min.commute[of "snd (snd y)"] by (rule n1)
  obtain c' where cyx: "entry_conflict sec y x = Some c'"
    and ids: "train1 c' = fst y" "train2 c' = fst x" "conflict_section_id c' = section_id sec"
    by (simp add: entry_conflict_def create_conflict_def Let_def n2)
  have s0: "detect_section_step m [x, y] sec 0 [] = [?c]"
    using assms(1) cxy
    by (simp add: detect_section_step_def o0 add_conflict_def entry_conflict_def conflict_exists_def)
  have ex: "conflict_exists [?c] c'"
    by (simp add: conflict_exists_def similar_conflict_def ids)
  have s1: "detect_section_step m [x, y] sec (Suc 0) [?c] = [?c]"
    using assms(1) cyx ex
    by (simp add: detect_section_step_def o1 add_conflict_def entry_conflict_def)
  show ?thesis
    unfolding detect_section_conflicts_def upt by (simp add: s0 s1)
qed

lemma two_entries_length:
  assumes "capacity sec = 1" and "0 \<le> m"
    and "max (fst (snd x)) (fst (snd y)) < min (snd (snd x)) (snd (snd y))"
  shows "length (detect_section_conflicts m [x, y] sec) = 1"
proof -
  have yx: "max (fst (snd y)) (fst (snd x)) < min (snd (snd y)) (snd (snd x))"
    unfolding max.commute[of "fst (snd y)"] min.commute[of "snd (snd y)"] by (rule assms(3))
  from two_entries[OF assms(1) margin_overlap_of_overlap[OF assms(2,3)]
      margin_overlap_of_overlap[OF assms(2) yx] assms(3)]
  show ?thesis by simp
qed

section \<open>The occupancy lists of the sections\<close>

lemma map_of_dict_set:
  "map_of (dict_set d k v) k' = (if k' = k then Some v else map_of d k')"
  by (induction d) auto

lemma dict_get_dict_append:
  "dict_get (dict_append d k v) k' [] = (if k' = k then dict_get d k [] @ [v] else dict_get d k' [])"
  by (induction d) (auto simp: dict_get_def)

lemma map_fst_dict_append:
  "map fst (dict_append d k v) = (if k \<in> fst ` set d then map fst d else map fst d @ [k])"
  by (induction d) force+

lemma keys_dict_append: "fst ` set (dict_append d k v) = insert k (fst ` set d)"
proof -
  have "fst ` set (dict_append d k v) = set (map fst (dict_append d k v))" by simp
  also have "\<dots> = insert k (fst ` set d)" unfolding map_fst_dict_append by auto
  finally show ?thesis .
qed

lemma distinct_dict_append:
  "distinct (map fst d) \<Longrightarrow> distinct (map fst (dict_append d k v))"
  unfolding map_fst_dict_append by auto

lemma route_schedules_entries:
  "dict_get (route_schedules train t rt d) s [] = dict_get d s [] @ route_entries train t rt s"
  by (induction rt arbitrary: t d) (simp_all add: Let_def dict_get_dict_append)

lemma route_schedules_keys:
  "fst ` set (route_schedules train t rt d) = fst ` set d \<union> set rt"
  by (induction rt arbitrary: t d) (auto simp: Let_def keys_dict_append)

lemma route_schedules_distinct:
  "distinct (map fst d) \<Longrightarrow> distinct (map fst (route_schedules train t rt d))"
  by (induction rt arbitrary: t d) (simp_all add: Let_def distinct_dict_append)

lemma walk_all_entries:
  "dict_get (walk_all trains d) s [] =
     dict_get d s [] @ concat (map (\<lambda>t. route_entries t (get_actual_arrival t) (route t) s) trains)"
  unfolding walk_all_def
  by (induction trains arbitrary: d) (simp_all add: route_schedules_entries)

lemma walk_all_keys:
  "fst ` set (walk_all trains d) = fst ` set d \<union> (\<Union>t\<in>set trains. set (route t))"
  unfolding walk_all_def
  by (induction trains arbitrary: d) (auto simp: route_schedules_keys)

lemma walk_all_distinct:
  "distinct (map fst d) \<Longrightarrow> distinct (map fst (walk_all trains d))"
  unfolding walk_all_def
  by (induction trains arbitrary: d) (simp_all add: route_schedules_distinct)

lemma generate_section_schedules_eq:
  "generate_section_schedules trains =
     map (\<lambda>(sid, train_times). (sid, sort_key (\<lambda>x. fst (snd x)) train_times)) (walk_all trains [])"
  by (simp add: generate_section_schedules_def walk_all_def)

lemma dict_get_map_values:
  "dict_get (map (\<lambda>(k, v). (k, f v)) d) s [] = (if s \<in> fst ` set d then f (dict_get d s []) else [])"
  by (induction d) (auto simp: dict_get_def)

lemma generate_keys:
  "fst ` set (generate_section_schedules trains) = (\<Union>t\<in>set trains. set (route t))"
proof -
  have "fst ` set (generate_section_schedules trains) = fst ` set (walk_all trains [])"
    unfolding generate_section_schedules_eq by force
  then show ?thesis by (simp add: walk_all_keys)
qed

lemma generate_distinct: "distinct (map fst (generate_section_schedules trains))"
proof -
  have "map fst (generate_section_schedules trains) = map fst (walk_all trains [])"
    unfolding generate_section_schedules_eq by (simp add: case_prod_beta comp_def)
  then show ?thesis using walk_all_distinct[of "[]" trains] by simp
qed

lemma generate_entries:
  assumes "s \<in> (\<Union>t\<in>set trains. set (route t))"
  shows "map_of (generate_section_schedules trains) s =
     Some (sort_key (\<lambda>x. fst (snd x))
       (concat (map (\<lambda>t. route_entries t (get_actual_arrival t) (route t) s) trains)))"
proof -
  from assms have k: "s \<in> fst ` set (walk_all trains [])" by (simp add: walk_all_keys)
  then have "s \<in> fst ` set (generate_section_schedules trains)" using assms generate_keys by simp
  then obtain v where v: "map_of (generate_section_schedules trains) s = Some v"
    by (metis domD dom_map_of_conv_image_fst)
  then have "dict_get (generate_section_schedules trains) s [] = v" by (simp add: dict_get_def)
  then have "v = sort_key (\<lambda>x. fst (snd x)) (dict_get (walk_all trains []) s [])"
    unfolding generate_section_schedules_eq dict_get_map_values using k by simp
  with v walk_all_entries[of trains "[]" s] show ?thesis by (simp add: dict_get_def)
qed

section \<open>The conflicts of one section among all detected conflicts\<close>

lemma section_dict_fold_lookup:
  "map_of (fold (\<lambda>s d. dict_set d (section_id s) s) sections d) k = Some sec \<Longrightarrow>
   map_of d k = Some sec \<or> (sec \<in> set sections \<and> section_id sec = k)"
proof (induction sections arbitrary: d)
  case Nil
  then show ?case by simp
next
  case (Cons x xs)
  from Cons.prems
  have "map_of (fold (\<lambda>s d. dict_set d (section_id s) s) xs (dict_set d (section_id x) x)) k = Some sec"
    by simp
  from Cons.IH[OF this] show ?case
    by (auto simp: map_of_dict_set split: if_splits)
qed

lemma section_dict_fold_dom:
  "k \<in> dom (map_of d) \<or> k \<in> section_id ` set sections \<Longrightarrow>
   k \<in> dom (map_of (fold (\<lambda>s d. dict_set d (section_id s) s) sections d))"
proof (induction sections arbitrary: d)
  case Nil
  then show ?case by simp
next
  case (Cons x xs)
  have "k \<in> dom (map_of (dict_set d (section_id x) x)) \<or> k \<in> section_id ` set xs"
    using Cons.prems by (auto simp: map_of_dict_set dom_def)
  from Cons.IH[OF this] show ?case by simp
qed

lemma section_dict_id: "map_of (section_dict sections) k = Some sec \<Longrightarrow> section_id sec = k"
  unfolding section_dict_def using section_dict_fold_lookup[of sections "[]" k sec] by simp

lemma section_dict_dom:
  "k \<in> section_id ` set sections \<Longrightarrow> k \<in> dom (map_of (section_dict sections))"
  unfolding section_dict_def using section_dict_fold_dom[of k "[]" sections] by simp

lemma entry_conflict_section_id:
  "entry_conflict sec x y = Some c \<Longrightarrow> conflict_section_id c = section_id sec"
  by (auto simp: entry_conflict_def create_conflict_def Let_def split: if_splits)

lemma detect_section_conflicts_section_id:
  "c \<in> set (detect_section_conflicts m tts sec) \<Longrightarrow> conflict_section_id c = section_id sec"
  using detect_section_conflicts_provenance entry_conflict_section_id by blast

lemma detect_loop_filter:
  assumes "detect_loop m sd ss cs = Inr cs'" and "distinct (map fst ss)"
    and "\<And>k sec. map_of sd k = Some sec \<Longrightarrow> section_id sec = k"
  shows "filter (\<lambda>c. conflict_section_id c = s) cs' =
           filter (\<lambda>c. conflict_section_id c = s) cs @
           (case map_of ss s of
              None \<Rightarrow> []
            | Some tts \<Rightarrow> (case map_of sd s of
                             None \<Rightarrow> []
                           | Some sec \<Rightarrow> detect_section_conflicts m tts sec))"
  using assms(1,2)
proof (induction ss arbitrary: cs)
  case Nil
  then show ?case by simp
next
  case (Cons p rest)
  obtain k tts where p: "p = (k, tts)" by (cases p)
  from Cons.prems(1) p obtain sec where sk: "map_of sd k = Some sec"
    and r: "detect_loop m sd rest (cs @ detect_section_conflicts m tts sec) = Inr cs'"
    by (auto split: option.splits)
  from Cons.prems(2) p have d: "distinct (map fst rest)" and nk: "k \<notin> fst ` set rest" by simp_all
  have id: "section_id sec = k" using sk by (rule assms(3))
  have all: "\<forall>c\<in>set (detect_section_conflicts m tts sec). conflict_section_id c = k"
    using detect_section_conflicts_section_id id by blast
  note ih = Cons.IH[OF r d]
  show ?case
  proof (cases "k = s")
    case True
    have f: "filter (\<lambda>c. conflict_section_id c = s) (detect_section_conflicts m tts sec)
               = detect_section_conflicts m tts sec"
      using all True by (simp add: filter_id_conv)
    have "map_of rest s = None" using nk True by (simp add: map_of_eq_None_iff)
    with ih f True sk p show ?thesis by simp
  next
    case False
    have f: "filter (\<lambda>c. conflict_section_id c = s) (detect_section_conflicts m tts sec) = []"
      using all False by (simp add: filter_empty_conv)
    from ih f False p show ?thesis by simp
  qed
qed

lemma detect_loop_returns:
  "\<forall>k\<in>fst ` set ss. k \<in> dom (map_of sd) \<Longrightarrow> \<exists>cs'. detect_loop m sd ss cs = Inr cs'"
proof (induction ss arbitrary: cs)
  case Nil
  then show ?case by simp
next
  case (Cons p rest)
  obtain k tts where p: "p = (k, tts)" by (cases p)
  from Cons.prems p obtain sec where sk: "map_of sd k = Some sec" by auto
  from Cons.prems have "\<forall>k\<in>fst ` set rest. k \<in> dom (map_of sd)" by simp
  from Cons.IH[OF this] sk p show ?case by simp
qed

lemma timedelta_minutes_add: "timedelta_minutes (a + b) = timedelta_minutes a + timedelta_minutes b"
  by (simp add: timedelta_minutes_def algebra_simps)

lemma route_entries_absent: "s \<notin> set rt \<Longrightarrow> route_entries train t rt s = []"
  by (induction rt arbitrary: t) (auto simp: Let_def)

lemma route_entries_once:
  "count_list rt s = 1 \<Longrightarrow>
   route_entries train t rt s =
     [(train, t + timedelta_minutes (time_to_section train s rt),
       t + timedelta_minutes (time_to_section train s rt)
         + timedelta_minutes (dict_get (estimated_section_times train) s 10))]"
proof (induction rt arbitrary: t)
  case Nil
  then show ?case by simp
next
  case (Cons r rt)
  show ?case
  proof (cases "r = s")
    case True
    with Cons.prems have "count_list rt s = 0" by simp
    then have "s \<notin> set rt" by (simp add: count_list_0_iff)
    from route_entries_absent[OF this] True show ?thesis
      by (simp add: Let_def timedelta_minutes_def)
  next
    case False
    with Cons.prems have "count_list rt s = 1" by simp
    from Cons.IH[OF this] False show ?thesis
      by (simp add: Let_def timedelta_minutes_add)
  qed
qed

lemma sort_key_two:
  "sort_key f [x, y] = (if f x \<le> f y then [x, y] else [y, x])"
  by simp

lemma count_list_one_mem: "count_list xs x = 1 \<Longrightarrow> x \<in> set xs"
  using count_list_0_iff[of xs x] by auto

lemma detect_two_trains:
  assumes once_a: "count_list (route a) s = 1" and once_b: "count_list (route b) s = 1"
    and known: "set (route a) \<union> set (route b) \<subseteq> section_id ` set sections"
    and sec: "map_of (section_dict sections) s = Some sec" and cap: "capacity sec = 1"
    and m: "0 \<le> m"
    and ov: "max (scheduled_section_start a s) (scheduled_section_start b s)
               < min (scheduled_section_end a s) (scheduled_section_end b s)"
  shows "\<exists>cs. detect_conflicts m [a, b] sections = Inr cs
              \<and> length (filter (\<lambda>c. conflict_section_id c = s) cs) = 1"
proof -
  let ?ea = "(a, scheduled_section_start a s, scheduled_section_end a s)"
  let ?eb = "(b, scheduled_section_start b s, scheduled_section_end b s)"
  have keys: "fst ` set (generate_section_schedules [a, b]) = set (route a) \<union> set (route b)"
    by (simp add: generate_keys)
  have "\<forall>k\<in>fst ` set (generate_section_schedules [a, b]). k \<in> dom (map_of (section_dict sections))"
    unfolding keys using known section_dict_dom by blast
  from detect_loop_returns[OF this]
  obtain cs where cs: "detect_conflicts m [a, b] sections = Inr cs"
    unfolding detect_conflicts_def by blast
  have ra: "route_entries a (get_actual_arrival a) (route a) s = [?ea]"
    by (simp add: route_entries_once[OF once_a] scheduled_section_start_def
        scheduled_section_end_def Let_def)
  have rb: "route_entries b (get_actual_arrival b) (route b) s = [?eb]"
    by (simp add: route_entries_once[OF once_b] scheduled_section_start_def
        scheduled_section_end_def Let_def)
  have "s \<in> (\<Union>t\<in>set [a, b]. set (route t))"
    using count_list_one_mem[OF once_a] by simp
  from generate_entries[OF this]
  have g: "map_of (generate_section_schedules [a, b]) s
             = Some (sort_key (\<lambda>x. fst (snd x)) [?ea, ?eb])"
    by (simp only: list.map concat.simps ra rb append.simps)
  from detect_loop_filter[where s = s, OF cs[unfolded detect_conflicts_def] generate_distinct section_dict_id]
  have f: "filter (\<lambda>c. conflict_section_id c = s) cs
             = detect_section_conflicts m (sort_key (\<lambda>x. fst (snd x)) [?ea, ?eb]) sec"
    by (simp add: g sec del: sort_key_simps)
  have ov': "max (scheduled_section_start b s) (scheduled_section_start a s)
               < min (scheduled_section_end b s) (scheduled_section_end a s)"
    unfolding max.commute[of "scheduled_section_start b s"]
      min.commute[of "scheduled_section_end b s"] by (rule ov)
  have "length (detect_section_conflicts m (sort_key (\<lambda>x. fst (snd x)) [?ea, ?eb]) sec) = 1"
  proof (cases "scheduled_section_start a s \<le> scheduled_section_start b s")
    case True
    then have "sort_key (\<lambda>x. fst (snd x)) [?ea, ?eb] = [?ea, ?eb]" by simp
    then show ?thesis using two_entries_length[OF cap m, of ?ea ?eb] ov by simp
  next
    case False
    then have "sort_key (\<lambda>x. fst (snd x)) [?ea, ?eb] = [?eb, ?ea]" by simp
    then show ?thesis using two_entries_length[OF cap m, of ?eb ?ea] ov' by simp
  qed
  with cs f show ?thesis by simp
qed

text \<open>
  C2, as the code has it. In a section's occupancy list, a conflict is reported for
  entry \<open>i\<close> and another entry \<open>j\<close> only when \<open>j\<close> overlaps \<open>i\<close> within the margin, the
  number of such other entries (not counting \<open>i\<close> itself) reaches the capacity, and
  the unmargined windows of the two overlap; whenever that holds, a conflict for the
  same pair of train ids and section is in the result; and the result never holds
  two conflicts for the same unordered pair of train ids and section. Two trains
  that each pass a section of capacity 1 once, with unmargined windows that overlap,
  yield exactly one conflict for that section, in either order of the two trains.
\<close>

theorem detection_triggers_and_dedup:
  "(\<forall>c\<in>set (detect_section_conflicts m tts sec).
      \<exists>i j. i < length tts \<and> j < length tts \<and> i \<noteq> j
        \<and> margin_overlap m (tts ! i) (tts ! j)
        \<and> capacity sec \<le> int (length (overlapping_trains m tts i))
        \<and> create_conflict (fst (tts ! i)) (fst (tts ! j)) sec (fst (snd (tts ! i)))
              (snd (snd (tts ! i))) (fst (snd (tts ! j))) (snd (snd (tts ! j))) = Some c)
   \<and> (\<forall>i j c. i < length tts \<and> j < length tts \<and> i \<noteq> j
        \<and> margin_overlap m (tts ! i) (tts ! j)
        \<and> capacity sec \<le> int (length (overlapping_trains m tts i))
        \<and> create_conflict (fst (tts ! i)) (fst (tts ! j)) sec (fst (snd (tts ! i)))
              (snd (snd (tts ! i))) (fst (snd (tts ! j))) (snd (snd (tts ! j))) = Some c
        \<longrightarrow> (\<exists>c'\<in>set (detect_section_conflicts m tts sec). similar_conflict c' c))
   \<and> (\<forall>p q. p < q \<and> q < length (detect_section_conflicts m tts sec)
        \<longrightarrow> \<not> similar_conflict (detect_section_conflicts m tts sec ! p)
                               (detect_section_conflicts m tts sec ! q))
   \<and> (count_list (route a) s = 1 \<and> count_list (route b) s = 1
        \<and> set (route a) \<union> set (route b) \<subseteq> section_id ` set sections
        \<and> map_of (section_dict sections) s = Some sec1 \<and> capacity sec1 = 1 \<and> 0 \<le> m
        \<and> max (scheduled_section_start a s) (scheduled_section_start b s)
              < min (scheduled_section_end a s) (scheduled_section_end b s)
        \<longrightarrow> (\<exists>cs cs'. detect_conflicts m [a, b] sections = Inr cs
               \<and> detect_conflicts m [b, a] sections = Inr cs'
               \<and> length (filter (\<lambda>c. conflict_section_id c = s) cs) = 1
               \<and> length (filter (\<lambda>c. conflict_section_id c = s) cs') = 1))"
proof (intro conjI)
  show "\<forall>c\<in>set (detect_section_conflicts m tts sec).
      \<exists>i j. i < length tts \<and> j < length tts \<and> i \<noteq> j
        \<and> margin_overlap m (tts ! i) (tts ! j)
        \<and> capacity sec \<le> int (length (overlapping_trains m tts i))
        \<and> create_conflict (fst (tts ! i)) (fst (tts ! j)) sec (fst (snd (tts ! i)))
              (snd (snd (tts ! i))) (fst (snd (tts ! j))) (snd (snd (tts ! j))) = Some c"
    using detect_section_conflicts_provenance[of _ m tts sec]
    unfolding triggered_def entry_conflict_def by blast
next
  show "\<forall>i j c. i < length tts \<and> j < length tts \<and> i \<noteq> j
        \<and> margin_overlap m (tts ! i) (tts ! j)
        \<and> capacity sec \<le> int (length (overlapping_trains m tts i))
        \<and> create_conflict (fst (tts ! i)) (fst (tts ! j)) sec (fst (snd (tts ! i)))
              (snd (snd (tts ! i))) (fst (snd (tts ! j))) (snd (snd (tts ! j))) = Some c
        \<longrightarrow> (\<exists>c'\<in>set (detect_section_conflicts m tts sec). similar_conflict c' c)"
    using detect_section_conflicts_reported[of m tts sec]
    unfolding triggered_def entry_conflict_def conflict_exists_iff by blast
next
  show "\<forall>p q. p < q \<and> q < length (detect_section_conflicts m tts sec)
        \<longrightarrow> \<not> similar_conflict (detect_section_conflicts m tts sec ! p)
                               (detect_section_conflicts m tts sec ! q)"
    using detect_section_conflicts_no_similar_pair[of m tts sec]
    unfolding no_similar_pair_def .
next
  show "count_list (route a) s = 1 \<and> count_list (route b) s = 1
        \<and> set (route a) \<union> set (route b) \<subseteq> section_id ` set sections
        \<and> map_of (section_dict sections) s = Some sec1 \<and> capacity sec1 = 1 \<and> 0 \<le> m
        \<and> max (scheduled_section_start a s) (scheduled_section_start b s)
              < min (scheduled_section_end a s) (scheduled_section_end b s)
        \<longrightarrow> (\<exists>cs cs'. detect_conflicts m [a, b] sections = Inr cs
               \<and> detect_conflicts m [b, a] sections = Inr cs'
               \<and> length (filter (\<lambda>c. conflict_section_id c = s) cs) = 1
               \<and> length (filter (\<lambda>c. conflict_section_id c = s) cs') = 1)"
  proof
    assume h: "count_list (route a) s = 1 \<and> count_list (route b) s = 1
        \<and> set (route a) \<union> set (route b) \<subseteq> section_id ` set sections
        \<and> map_of (section_dict sections) s = Some sec1 \<and> capacity sec1 = 1 \<and> 0 \<le> m
        \<and> max (scheduled_section_start a s) (scheduled_section_start b s)
              < min (scheduled_section_end a s) (scheduled_section_end b s)"
    then have oa: "count_list (route a) s = 1" and ob: "count_list (route b) s = 1"
      and kn: "set (route a) \<union> set (route b) \<subseteq> section_id ` set sections"
      and se: "map_of (section_dict sections) s = Some sec1" and ca: "capacity sec1 = 1"
      and m: "0 \<le> m"
      and ov: "max (scheduled_section_start a s) (scheduled_section_start b s)
              < min (scheduled_section_end a s) (scheduled_section_end b s)"
      by simp_all
    have kn': "set (route b) \<union> set (route a) \<subseteq> section_id ` set sections"
      using kn by (simp add: Un_commute)
    have ov': "max (scheduled_section_start b s) (scheduled_section_start a s)
               < min (scheduled_section_end b s) (scheduled_section_end a s)"
      unfolding max.commute[of "scheduled_section_start b s"]
        min.commute[of "scheduled_section_end b s"] by (rule ov)
    from detect_two_trains[OF oa ob kn se ca m ov] detect_two_trains[OF ob oa kn' se ca m ov']
    show "\<exists>cs cs'. detect_conflicts m [a, b] sections = Inr cs
               \<and> detect_conflicts m [b, a] sections = Inr cs'
               \<and> length (filter (\<lambda>c. conflict_section_id c = s) cs) = 1
               \<and> length (filter (\<lambda>c. conflict_section_id c = s) cs') = 1"
      by blast
  qed
qed

lemma three_times_detect:
  "map (train_id \<circ> train1) (detect_section_conflicts 5 three_times junction_x) = [''T001'', ''T001'', ''T002'']
   \<and> map (train_id \<circ> train2) (detect_section_conflicts 5 three_times junction_x) = [''T002'', ''T003'', ''T003'']"
  by code_simp

text \<open>
  Three mutually overlapping entries on the junction give three conflicts, one per
  pair; the sample express and local train meet once on the single line
  \<^verbatim>\<open>SEC_004\<close>, in either order.
\<close>

theorem detection_triggers_and_dedup_witness:
  "map (train_id \<circ> train1) (detect_section_conflicts 5 three_times junction_x)
     = [''T001'', ''T001'', ''T002'']
   \<and> map (train_id \<circ> train2) (detect_section_conflicts 5 three_times junction_x)
     = [''T002'', ''T003'', ''T003'']
   \<and> \<not> similar_conflict (detect_section_conflicts 5 three_times junction_x ! 0)
                         (detect_section_conflicts 5 three_times junction_x ! 1)
   \<and> count_list (route (sample_T001 0)) ''SEC_004'' = 1
   \<and> count_list (route (sample_T002 0)) ''SEC_004'' = 1
   \<and> map_of (section_dict create_sample_section) ''SEC_004'' = Some main_line_south
   \<and> capacity main_line_south = 1
   \<and> max (scheduled_section_start (sample_T001 0) ''SEC_004'')
          (scheduled_section_start (sample_T002 0) ''SEC_004'')
       < min (scheduled_section_end (sample_T001 0) ''SEC_004'')
             (scheduled_section_end (sample_T002 0) ''SEC_004'')
   \<and> map_sum id (\<lambda>cs. length (filter (\<lambda>c. conflict_section_id c = ''SEC_004'') cs))
        (detect_conflicts 5 [sample_T001 0, sample_T002 0] create_sample_section) = Inr 1
   \<and> map_sum id (\<lambda>cs. length (filter (\<lambda>c. conflict_section_id c = ''SEC_004'') cs))
        (detect_conflicts 5 [sample_T002 0, sample_T001 0] create_sample_section) = Inr 1"
proof -
  note inst = detection_triggers_and_dedup[of 5 three_times junction_x "sample_T001 0" "''SEC_004''"
      "sample_T002 0" create_sample_section main_line_south]
  have len: "length (detect_section_conflicts 5 three_times junction_x) = 3"
    using three_times_detect by (metis length_map length_Cons list.size(3) numeral_3_eq_3)
  from inst len
  have ns: "\<not> similar_conflict (detect_section_conflicts 5 three_times junction_x ! 0)
                         (detect_section_conflicts 5 three_times junction_x ! 1)"
    by simp
  have oa: "count_list (route (sample_T001 0)) ''SEC_004'' = 1"
    by (simp add: sample_T001_def)
  have ob: "count_list (route (sample_T002 0)) ''SEC_004'' = 1"
    by (simp add: sample_T002_def)
  have kn: "set (route (sample_T001 0)) \<union> set (route (sample_T002 0))
              \<subseteq> section_id ` set create_sample_section"
    by (simp add: sample_T001_def sample_T002_def create_sample_section_def)
  have se: "map_of (section_dict create_sample_section) ''SEC_004'' = Some main_line_south"
    by code_simp
  have ca: "capacity main_line_south = 1" by (simp add: main_line_south_def)
  have ov: "max (scheduled_section_start (sample_T001 0) ''SEC_004'')
          (scheduled_section_start (sample_T002 0) ''SEC_004'')
       < min (scheduled_section_end (sample_T001 0) ''SEC_004'')
             (scheduled_section_end (sample_T002 0) ''SEC_004'')"
    by code_simp
  from inst oa ob kn se ca ov
  obtain cs cs' where
    "detect_conflicts 5 [sample_T001 0, sample_T002 0] create_sample_section = Inr cs"
    "detect_conflicts 5 [sample_T002 0, sample_T001 0] create_sample_section = Inr cs'"
    "length (filter (\<lambda>c. conflict_section_id c = ''SEC_004'') cs) = 1"
    "length (filter (\<lambda>c. conflict_section_id c = ''SEC_004'') cs') = 1"
    by auto
  then show ?thesis using three_times_detect ns oa ob se ca ov by simp
qed

text \<open>
  C2 as stated fails. In the double-track section of the sample data the second and
  third train overlap, so for each the count of overlapping entries including itself
  is 2, the capacity, yet no conflict is reported there. And two trains on a section
  of capacity 1 whose windows overlap only within the safety margin (the second
  enters two minutes after the first has left) yield no conflict.
\<close>

theorem capacity_count_counterexample:
  "map_of (generate_section_schedules (create_sample_trains 0)) ''SEC_002'' = Some sample_times_002
   \<and> capacity main_line_north \<le> int (length (overlapping_trains 5 sample_times_002 1)) + 1
   \<and> detect_section_conflicts 5 sample_times_002 main_line_north = []
   \<and> detect_conflicts 5 (create_sample_trains 0) create_sample_section = Inr [sample_conflict]
   \<and> capacity (two_sections ! 0) = 1
   \<and> margin_overlap 5 (first_train, 0, timedelta_minutes 10)
        (second_train, timedelta_minutes 12, timedelta_minutes 22)
   \<and> detect_conflicts 5 [first_train, second_train] two_sections = Inr []"
  by code_simp

end
